theory Spec2Isabelle
  imports Complex_Main
begin

section \<open>PixelPulse: pixelation engine, effect renderer and GIF capture loop\<close>

text \<open>
  The development follows \<^verbatim>\<open>src/js/pixelate.js\<close>, which holds the classes
  \<^verbatim>\<open>PixelateEngine\<close>, \<^verbatim>\<open>AnimationEngine\<close> and \<^verbatim>\<open>GifExporter\<close>.
  JavaScript numbers are modelled as \<^typ>\<open>int\<close> or \<^typ>\<open>nat\<close> where the source only ever
  holds integers (image sizes, block size, counters) and as \<^typ>\<open>real\<close> otherwise. In the
  output geometry of \<^verbatim>\<open>getPixelatedData\<close>, where \<^verbatim>\<open>Math.floor\<close> and \<^verbatim>\<open>Math.ceil\<close> make
  the rounding of binary64 visible, every quotient and product is rounded as the host
  rounds it; in the colour, clock and drawing arithmetic the reals are exact.
  Canvas operations of the browser (\<^verbatim>\<open>drawImage\<close>, \<^verbatim>\<open>getImageData\<close>) are taken as total.
  A \<^verbatim>\<open>null\<close> field is \<open>None\<close>; reading a property of \<^verbatim>\<open>null\<close> is the error
  \<open>TypeError\<close>.
\<close>

datatype error = TypeError

subsection \<open>Arithmetic of the host language\<close>

text \<open>
  \<^verbatim>\<open>a % b\<close>: the remainder has the sign of the dividend (the quotient is truncated
  towards zero).
\<close>

definition js_rem :: "real \<Rightarrow> real \<Rightarrow> real" where
  "js_rem a b = a - b * of_int (if a / b < 0 then \<lceil>a / b\<rceil> else \<lfloor>a / b\<rfloor>)"

text \<open>\<^verbatim>\<open>Math.round\<close> rounds halves upwards.\<close>

definition Math_round :: "real \<Rightarrow> int" where
  "Math_round x = \<lfloor>x + 1 / 2\<rfloor>"

text \<open>
  Where the source takes \<^verbatim>\<open>Math.floor\<close> or \<^verbatim>\<open>Math.ceil\<close> of a quotient or product, the
  rounding of the host's numbers decides the result, so the operations are modelled as
  the host performs them: the exact result rounded to the nearest binary64 number, ties
  to the even significand. \<open>binary64 x\<close> is that rounding: 53 significant bits at the
  exponent of \<open>x\<close>, with the fixed spacing of the subnormal numbers below \<open>2 powr - 1022\<close>.
  Results beyond the largest finite number (\<^verbatim>\<open>Infinity\<close>) are outside the model.
\<close>

definition roundTiesToEven :: "real \<Rightarrow> int" where
  "roundTiesToEven x =
     (let f = \<lfloor>x\<rfloor>; r = x - of_int f
      in if r < 1 / 2 then f else if 1 / 2 < r then f + 1 else if even f then f else f + 1)"

definition binary64 :: "real \<Rightarrow> real" where
  "binary64 x =
     (if x = 0 then 0
      else let e = max \<lfloor>log 2 \<bar>x\<bar>\<rfloor> (- 1022)
           in of_int (roundTiesToEven (x * 2 powr of_int (52 - e))) * 2 powr of_int (e - 52))"

text \<open>
  \<^verbatim>\<open>Math.random()\<close> reads a hidden global generator. The generator is the stream of
  the values it will return; a call takes the first one and leaves the rest.
\<close>

type_synonym rng = "nat \<Rightarrow> real"

definition Math_random :: "rng \<Rightarrow> real \<times> rng" where
  "Math_random rnd = (rnd 0, \<lambda>n. rnd (Suc n))"

subsection \<open>PixelateEngine\<close>

record image =
  width :: nat
  height :: nat
  src :: string

record canvas =
  cwidth :: int
  cheight :: int

text \<open>An \<^verbatim>\<open>ImageData\<close> object: only its dimensions are modelled.\<close>

record imageData =
  iwidth :: int
  iheight :: int

record pixelateEngine =
  originalImage :: "image option"
  originalImageData :: "imageData option"
  pixelSize :: int
  outputWidth :: int
  outputHeight :: int
  tempCanvas :: canvas

definition setPixelSize :: "int \<Rightarrow> pixelateEngine \<Rightarrow> pixelateEngine" where
  "setPixelSize sz e = e\<lparr>pixelSize := max 4 (min 64 sz)\<rparr>"

text \<open>
  \<^verbatim>\<open>getPixelatedData(maxWidth, maxHeight)\<close>: returns \<^verbatim>\<open>null\<close> (\<open>None\<close>) when no image is
  loaded, and otherwise computes the output geometry, stores it in the engine, resizes
  the temporary canvas and returns the image data read back from it. Each division and
  each multiplication by the scale is rounded as the host rounds it. The product of the
  grid size and the block size is a product of two integers far below \<open>2 ^ 53\<close> for any
  image a browser holds, and is exact. The canvas calls that follow the assignments are
  taken as total: where the grid has a zero dimension the browser raises in them, after
  the engine has been updated as modelled.
\<close>

definition getPixelatedData ::
  "real \<Rightarrow> real \<Rightarrow> pixelateEngine \<Rightarrow> imageData option \<times> pixelateEngine" where
  "getPixelatedData maxWidth maxHeight e =
     (case originalImage e of
        None \<Rightarrow> (None, e)
      | Some img \<Rightarrow>
          let pixelSize = pixelSize e;
              scale = min (min (binary64 (maxWidth / real (width img)))
                               (binary64 (maxHeight / real (height img)))) 1;
              scaledWidth = \<lfloor>binary64 (real (width img) * scale)\<rfloor>;
              scaledHeight = \<lfloor>binary64 (real (height img) * scale)\<rfloor>;
              gridWidth = \<lceil>binary64 (real_of_int scaledWidth / real_of_int pixelSize)\<rceil>;
              gridHeight = \<lceil>binary64 (real_of_int scaledHeight / real_of_int pixelSize)\<rceil>;
              e1 = e\<lparr>outputWidth := gridWidth * pixelSize,
                     outputHeight := gridHeight * pixelSize\<rparr>;
              e2 = e1\<lparr>tempCanvas := \<lparr>cwidth = outputWidth e1, cheight = outputHeight e1\<rparr>\<rparr>
          in (Some \<lparr>iwidth = outputWidth e2, iheight = outputHeight e2\<rparr>, e2))"

text \<open>
  \<^verbatim>\<open>renderToCanvas(targetCanvas, maxWidth, maxHeight)\<close> returns nothing; the model returns
  the target canvas and the engine as the call leaves them.
\<close>

definition renderToCanvas ::
  "canvas \<Rightarrow> real \<Rightarrow> real \<Rightarrow> pixelateEngine \<Rightarrow> canvas \<times> pixelateEngine" where
  "renderToCanvas targetCanvas maxWidth maxHeight e =
     (case originalImage e of
        None \<Rightarrow> (targetCanvas, e)
      | Some img \<Rightarrow>
          (case getPixelatedData maxWidth maxHeight e of
             (None, e') \<Rightarrow> (targetCanvas, e')
           | (Some imageData, e') \<Rightarrow>
               (targetCanvas\<lparr>cwidth := outputWidth e', cheight := outputHeight e'\<rparr>, e')))"

text \<open>
  A grid cell. The source names the fields \<^verbatim>\<open>r\<close>, \<^verbatim>\<open>g\<close>, \<^verbatim>\<open>b\<close>, \<^verbatim>\<open>a\<close>; they carry a
  prefix here so that these letters stay free for variables.
\<close>

record pixel =
  px_r :: nat
  px_g :: nat
  px_b :: nat
  px_a :: nat

type_synonym grid = "pixel list list"

text \<open>
  \<^verbatim>\<open>getPixelGrid()\<close>. The smoothed down-scaling of the image to the grid resolution is
  done by the browser (\<^verbatim>\<open>smallCtx.drawImage\<close> followed by \<^verbatim>\<open>getImageData\<close>); it is the
  parameter \<open>drawImage\<close>, which gives the RGBA byte at each index of the resulting
  \<^verbatim>\<open>data\<close> array.
\<close>

type_synonym resampler = "image \<Rightarrow> int \<Rightarrow> int \<Rightarrow> nat \<Rightarrow> nat"

definition getPixelGrid :: "resampler \<Rightarrow> pixelateEngine \<Rightarrow> grid option" where
  "getPixelGrid drawImage e =
     (case originalImage e of
        None \<Rightarrow> None
      | Some img \<Rightarrow>
          let pixelSize = pixelSize e;
              gridWidth = \<lceil>real_of_int (outputWidth e) / real_of_int pixelSize\<rceil>;
              gridHeight = \<lceil>real_of_int (outputHeight e) / real_of_int pixelSize\<rceil>;
              data = drawImage img gridWidth gridHeight
          in Some (map (\<lambda>y. map (\<lambda>x. let i = (y * nat gridWidth + x) * 4
                                    in \<lparr>px_r = data i, px_g = data (i + 1),
                                        px_b = data (i + 2), px_a = data (i + 3)\<rparr>)
                                [0..<nat gridWidth])
                        [0..<nat gridHeight]))"

record size2 =
  sz_width :: int
  sz_height :: int

definition getOutputSize :: "pixelateEngine \<Rightarrow> size2" where
  "getOutputSize e = \<lparr>sz_width = outputWidth e, sz_height = outputHeight e\<rparr>"

definition getGridSize :: "pixelateEngine \<Rightarrow> size2" where
  "getGridSize e =
     \<lparr>sz_width = \<lceil>real_of_int (outputWidth e) / real_of_int (pixelSize e)\<rceil>,
      sz_height = \<lceil>real_of_int (outputHeight e) / real_of_int (pixelSize e)\<rceil>\<rparr>"

definition dispose :: "pixelateEngine \<Rightarrow> pixelateEngine" where
  "dispose e = e\<lparr>originalImage := None, originalImageData := None\<rparr>"

subsection \<open>AnimationEngine: colour conversion and the seeded generator\<close>

record hsl =
  hsl_h :: real
  hsl_s :: real
  hsl_l :: real

record rgb =
  rgb_r :: int
  rgb_g :: int
  rgb_b :: int

text \<open>
  \<^verbatim>\<open>rgbToHsl(r, g, b)\<close>. The \<^verbatim>\<open>switch (max)\<close> tries \<^verbatim>\<open>case r\<close>, then \<^verbatim>\<open>case g\<close>, then
  \<^verbatim>\<open>case b\<close>; the maximum is one of the three, so the last case is the \<open>else\<close>.
\<close>

definition rgbToHsl :: "real \<Rightarrow> real \<Rightarrow> real \<Rightarrow> hsl" where
  "rgbToHsl r0 g0 b0 =
     (let r = r0 / 255; g = g0 / 255; b = b0 / 255;
          mx = max (max r g) b;
          mn = min (min r g) b;
          l = (mx + mn) / 2
      in if mx = mn then \<lparr>hsl_h = 0 * 360, hsl_s = 0, hsl_l = l\<rparr>
         else
           let d = mx - mn;
               s = (if l > 0.5 then d / (2 - mx - mn) else d / (mx + mn));
               h = (if mx = r then ((g - b) / d + (if g < b then 6 else 0)) / 6
                    else if mx = g then ((b - r) / d + 2) / 6
                    else ((r - g) / d + 4) / 6)
           in \<lparr>hsl_h = h * 360, hsl_s = s, hsl_l = l\<rparr>)"

definition hue2rgb :: "real \<Rightarrow> real \<Rightarrow> real \<Rightarrow> real" where
  "hue2rgb p q t0 =
     (let t1 = (if t0 < 0 then t0 + 1 else t0);
          t = (if t1 > 1 then t1 - 1 else t1)
      in if t < 1 / 6 then p + (q - p) * 6 * t
         else if t < 1 / 2 then q
         else if t < 2 / 3 then p + (q - p) * (2 / 3 - t) * 6
         else p)"

definition hslToRgb :: "real \<Rightarrow> real \<Rightarrow> real \<Rightarrow> rgb" where
  "hslToRgb h0 s l =
     (let h = h0 / 360;
          (r, g, b) =
             (if s = 0 then (l, l, l)
              else
                let q = (if l < 0.5 then l * (1 + s) else l + s - l * s);
                    p = 2 * l - q
                in (hue2rgb p q (h + 1 / 3), hue2rgb p q h, hue2rgb p q (h - 1 / 3)))
      in \<lparr>rgb_r = Math_round (r * 255),
          rgb_g = Math_round (g * 255),
          rgb_b = Math_round (b * 255)\<rparr>)"

definition seededRandom :: "real \<Rightarrow> real" where
  "seededRandom seed = (let x = sin seed * 10000 in x - of_int \<lfloor>x\<rfloor>)"

subsection \<open>AnimationEngine: drawing commands and the effects\<close>

text \<open>
  A \<^verbatim>\<open>fillStyle\<close> is either the string \<^verbatim>\<open>rgba(r, g, b, a)\<close> built from four numbers or a
  literal colour string.
\<close>

datatype colour = Rgba real real real real | Named string

text \<open>
  One \<^verbatim>\<open>ctx.fillRect(x, y, w, h)\<close> with the fill style in force. The first field is not in
  the source: it records for which grid cell \<open>(x, y)\<close> the loop body issued the command
  (\<open>None\<close> for the clearing of the canvas), so that statements about cells can be made.
\<close>

datatype fillRect = FillRect (cell: "(int \<times> int) option") (fillStyle: colour) real real real real

text \<open>\<^verbatim>\<open>this.pixelGrid[y]?.[x]\<close>: \<open>None\<close> is \<^verbatim>\<open>undefined\<close>.\<close>

definition cellAt :: "grid \<Rightarrow> int \<Rightarrow> int \<Rightarrow> pixel option" where
  "cellAt pixelGrid y x =
     (if 0 \<le> y \<and> y < int (length pixelGrid)
      then let row = pixelGrid ! nat y
           in if 0 \<le> x \<and> x < int (length row) then Some (row ! nat x) else None
      else None)"

text \<open>
  The two nested loops over the grid shared by all effects: \<open>body y x\<close> is the list of
  commands of one iteration.
\<close>

definition forGrid :: "size2 \<Rightarrow> (int \<Rightarrow> int \<Rightarrow> fillRect list) \<Rightarrow> fillRect list" where
  "forGrid gridSize body =
     concat (map (\<lambda>y. concat (map (\<lambda>x. body (int y) (int x)) [0..<nat (sz_width gridSize)]))
                 [0..<nat (sz_height gridSize)])"

definition staticCell :: "grid \<Rightarrow> int \<Rightarrow> int \<Rightarrow> int \<Rightarrow> fillRect list" where
  "staticCell pixelGrid ps y x =
     (case cellAt pixelGrid y x of
        None \<Rightarrow> []
      | Some pixel \<Rightarrow>
          if px_a pixel < 10 then []
          else [FillRect (Some (x, y))
                  (Rgba (real (px_r pixel)) (real (px_g pixel)) (real (px_b pixel))
                        (real (px_a pixel) / 255))
                  (of_int (x * ps)) (of_int (y * ps)) (of_int ps) (of_int ps)])"

definition renderStatic :: "grid \<Rightarrow> int \<Rightarrow> size2 \<Rightarrow> fillRect list" where
  "renderStatic pixelGrid ps gridSize = forGrid gridSize (staticCell pixelGrid ps)"

record glitchLine =
  gl_y :: int
  gl_offset :: real
  gl_height :: int

text \<open>The first loop of \<^verbatim>\<open>renderGlitch\<close>, run \<open>n\<close> times.\<close>

fun glitchLines :: "nat \<Rightarrow> real \<Rightarrow> size2 \<Rightarrow> rng \<Rightarrow> glitchLine list \<times> rng" where
  "glitchLines 0 inten gridSize rnd = ([], rnd)"
| "glitchLines (Suc n) inten gridSize rnd =
     (let (r0, rnd0) = Math_random rnd
      in if r0 < 0.1 * inten
         then let (r1, rnd1) = Math_random rnd0;
                  (r2, rnd2) = Math_random rnd1;
                  (r3, rnd3) = Math_random rnd2;
                  line = \<lparr>gl_y = \<lfloor>r1 * of_int (sz_height gridSize)\<rfloor>,
                          gl_offset = (r2 - 0.5) * inten * 2,
                          gl_height = \<lfloor>r3 * 3\<rfloor> + 1\<rparr>;
                  (ls, rnd') = glitchLines n inten gridSize rnd3
              in (line # ls, rnd')
         else glitchLines n inten gridSize rnd0)"

definition glitchCell ::
  "grid \<Rightarrow> int \<Rightarrow> real \<Rightarrow> real \<Rightarrow> real \<Rightarrow> int \<Rightarrow> int \<Rightarrow> fillRect list" where
  "glitchCell pixelGrid ps inten t xOffset y x =
     (case cellAt pixelGrid y x of
        None \<Rightarrow> []
      | Some pixel \<Rightarrow>
          if px_a pixel < 10 then []
          else
            let rgbSplit = sin (t * 10) * inten * 0.3
            in [FillRect (Some (x, y))
                  (Rgba (real (px_r pixel)) 0 0 (real (px_a pixel) / 255 * 0.8))
                  (of_int (x * ps) + xOffset - rgbSplit) (of_int (y * ps)) (of_int ps) (of_int ps),
                FillRect (Some (x, y))
                  (Rgba 0 (real (px_g pixel)) (real (px_b pixel)) (real (px_a pixel) / 255 * 0.8))
                  (of_int (x * ps) + xOffset + rgbSplit) (of_int (y * ps)) (of_int ps) (of_int ps),
                FillRect (Some (x, y))
                  (Rgba (real (px_r pixel)) (real (px_g pixel)) (real (px_b pixel))
                        (real (px_a pixel) / 255 * 0.4))
                  (of_int (x * ps) + xOffset) (of_int (y * ps)) (of_int ps) (of_int ps)])"

text \<open>The row loop of \<^verbatim>\<open>renderGlitch\<close> over the rows \<open>ys\<close> still to draw.\<close>

fun glitchRows ::
  "grid \<Rightarrow> int \<Rightarrow> size2 \<Rightarrow> real \<Rightarrow> real \<Rightarrow> glitchLine list \<Rightarrow> nat list \<Rightarrow> rng
     \<Rightarrow> fillRect list \<times> rng" where
  "glitchRows pixelGrid ps gridSize inten t ls [] rnd = ([], rnd)"
| "glitchRows pixelGrid ps gridSize inten t ls (y # ys) rnd =
     (let xOffset0 =
            (case find (\<lambda>line. int y \<ge> gl_y line \<and> int y < gl_y line + gl_height line) ls of
               None \<Rightarrow> 0
             | Some line \<Rightarrow> gl_offset line * of_int ps);
          (r0, rnd0) = Math_random rnd;
          (xOffset, rnd1) =
            (if r0 < 0.02 * inten
             then let (r1, rnd1) = Math_random rnd0
                  in (xOffset0 + (r1 - 0.5) * inten * of_int ps * 0.5, rnd1)
             else (xOffset0, rnd0));
          row = concat (map (\<lambda>x. glitchCell pixelGrid ps inten t xOffset (int y) (int x))
                            [0..<nat (sz_width gridSize)]);
          (rest, rnd') = glitchRows pixelGrid ps gridSize inten t ls ys rnd1
      in (row @ rest, rnd'))"

definition renderGlitch ::
  "grid \<Rightarrow> real \<Rightarrow> real \<Rightarrow> int \<Rightarrow> size2 \<Rightarrow> rng \<Rightarrow> fillRect list \<times> rng" where
  "renderGlitch pixelGrid inten t ps gridSize rnd =
     (let numGlitchLines = \<lfloor>inten / 2\<rfloor> + 1;
          (ls, rnd1) = glitchLines (nat numGlitchLines) inten gridSize rnd
      in glitchRows pixelGrid ps gridSize inten t ls [0..<nat (sz_height gridSize)] rnd1)"

definition floatShadowCell :: "grid \<Rightarrow> int \<Rightarrow> real \<Rightarrow> real \<Rightarrow> int \<Rightarrow> int \<Rightarrow> fillRect list" where
  "floatShadowCell pixelGrid ps floatX floatY y x =
     (case cellAt pixelGrid y x of
        None \<Rightarrow> []
      | Some pixel \<Rightarrow>
          if px_a pixel < 10 then []
          else [FillRect (Some (x, y)) (Rgba 0 0 0 0.3)
                  (of_int (x * ps) + floatX + 4) (of_int (y * ps) + floatY + 4)
                  (of_int ps) (of_int ps)])"

definition floatCell ::
  "grid \<Rightarrow> int \<Rightarrow> real \<Rightarrow> real \<Rightarrow> real \<Rightarrow> real \<Rightarrow> int \<Rightarrow> int \<Rightarrow> fillRect list" where
  "floatCell pixelGrid ps inten t floatX floatY y x =
     (case cellAt pixelGrid y x of
        None \<Rightarrow> []
      | Some pixel \<Rightarrow>
          if px_a pixel < 10 then []
          else
            let breathe = 0.9 + sin (t * 3) * 0.1 * (inten / 10);
                r = min 255 \<lfloor>real (px_r pixel) * breathe\<rfloor>;
                g = min 255 \<lfloor>real (px_g pixel) * breathe\<rfloor>;
                b = min 255 \<lfloor>real (px_b pixel) * breathe\<rfloor>
            in [FillRect (Some (x, y))
                  (Rgba (of_int r) (of_int g) (of_int b) (real (px_a pixel) / 255))
                  (of_int (x * ps) + floatX) (of_int (y * ps) + floatY)
                  (of_int ps) (of_int ps)])"

definition renderFloat :: "grid \<Rightarrow> real \<Rightarrow> real \<Rightarrow> int \<Rightarrow> size2 \<Rightarrow> fillRect list" where
  "renderFloat pixelGrid inten t ps gridSize =
     (let floatY = sin (t * 2) * inten * 2;
          floatX = cos (t * 1.5) * inten * 0.5
      in forGrid gridSize (floatShadowCell pixelGrid ps floatX floatY)
         @ forGrid gridSize (floatCell pixelGrid ps inten t floatX floatY))"

text \<open>Grid position of sparkle candidate \<open>i\<close> at time \<open>t\<close>.\<close>

definition sparklePosition :: "size2 \<Rightarrow> int \<Rightarrow> real \<Rightarrow> int \<times> int" where
  "sparklePosition gridSize i t =
     (let seed = i * 1000 + \<lfloor>t * 3\<rfloor>;
          rx = seededRandom (of_int seed) * of_int (sz_width gridSize);
          ry = seededRandom (of_int (seed + 1)) * of_int (sz_height gridSize)
      in (\<lfloor>rx\<rfloor>, \<lfloor>ry\<rfloor>))"

text \<open>One iteration of the sparkle loop.\<close>

definition sparkle :: "grid \<Rightarrow> int \<Rightarrow> size2 \<Rightarrow> real \<Rightarrow> int \<Rightarrow> fillRect list" where
  "sparkle pixelGrid ps gridSize t i =
     (let (x, y) = sparklePosition gridSize i t
      in case cellAt pixelGrid y x of
           None \<Rightarrow> []
         | Some pixel \<Rightarrow>
             if px_a pixel < 10 then []
             else
               let sparklePhase = js_rem (t * 5 + of_int i * 0.5) (pi * 2);
                   brightness = (sin sparklePhase)\<^sup>2
               in if brightness > 0.3
                  then
                    let glowSize = of_int ps * (1 + brightness * 0.5);
                        glowX = of_int (x * ps) + (of_int ps - glowSize) / 2;
                        glowY = of_int (y * ps) + (of_int ps - glowSize) / 2
                    in FillRect (Some (x, y)) (Rgba 255 255 255 (brightness * 0.8))
                         glowX glowY glowSize glowSize
                       # (if brightness > 0.6
                          then [FillRect (Some (x, y)) (Rgba 255 255 255 (brightness * 0.3))
                                  (glowX - of_int ps) (glowY - of_int ps)
                                  (glowSize + of_int (ps * 2)) (glowSize + of_int (ps * 2))]
                          else [])
                  else [])"

definition renderSparkle :: "grid \<Rightarrow> real \<Rightarrow> real \<Rightarrow> int \<Rightarrow> size2 \<Rightarrow> fillRect list" where
  "renderSparkle pixelGrid inten t ps gridSize =
     (let numSparkles = inten * 5
      in forGrid gridSize (staticCell pixelGrid ps)
         @ concat (map (\<lambda>i. sparkle pixelGrid ps gridSize t (int i)) [0..<nat \<lceil>numSparkles\<rceil>]))"

definition waveCell :: "grid \<Rightarrow> int \<Rightarrow> real \<Rightarrow> real \<Rightarrow> int \<Rightarrow> int \<Rightarrow> fillRect list" where
  "waveCell pixelGrid ps inten t y x =
     (let waveX = sin (of_int y * 0.3 + t * 3) * inten * 0.8;
          waveY = sin (of_int y * 0.2 + t * 2) * inten * 0.3
      in case cellAt pixelGrid y x of
           None \<Rightarrow> []
         | Some pixel \<Rightarrow>
             if px_a pixel < 10 then []
             else
               let localWave = sin (of_int x * 0.4 + t * 4) * inten * 0.2
               in [FillRect (Some (x, y))
                     (Rgba (real (px_r pixel)) (real (px_g pixel)) (real (px_b pixel))
                           (real (px_a pixel) / 255))
                     (of_int (x * ps) + waveX) (of_int (y * ps) + waveY + localWave)
                     (of_int ps) (of_int ps)])"

definition renderWave :: "grid \<Rightarrow> real \<Rightarrow> real \<Rightarrow> int \<Rightarrow> size2 \<Rightarrow> fillRect list" where
  "renderWave pixelGrid inten t ps gridSize = forGrid gridSize (waveCell pixelGrid ps inten t)"

text \<open>
  The rainbow effect on one cell, in the three steps of the loop body: the hue shift of
  the cell, the shifted colour in HSL, and the command drawn.
\<close>

definition hueShift :: "real \<Rightarrow> real \<Rightarrow> int \<Rightarrow> int \<Rightarrow> real" where
  "hueShift inten t y x = js_rem (of_int x + of_int y + t * 50 * (inten / 5)) 360"

definition rainbowHsl :: "real \<Rightarrow> real \<Rightarrow> int \<Rightarrow> int \<Rightarrow> pixel \<Rightarrow> hsl" where
  "rainbowHsl inten t y x pixel =
     (let c = rgbToHsl (real (px_r pixel)) (real (px_g pixel)) (real (px_b pixel));
          c1 = c\<lparr>hsl_h := js_rem (hsl_h c + hueShift inten t y x * (inten / 10)) 360\<rparr>
      in c1\<lparr>hsl_s := min 1 (hsl_s c1 + 0.2 * (inten / 10))\<rparr>)"

definition rainbowCell :: "grid \<Rightarrow> int \<Rightarrow> real \<Rightarrow> real \<Rightarrow> int \<Rightarrow> int \<Rightarrow> fillRect list" where
  "rainbowCell pixelGrid ps inten t y x =
     (case cellAt pixelGrid y x of
        None \<Rightarrow> []
      | Some pixel \<Rightarrow>
          if px_a pixel < 10 then []
          else
            let c = rainbowHsl inten t y x pixel;
                out = hslToRgb (hsl_h c) (hsl_s c) (hsl_l c)
            in [FillRect (Some (x, y))
                  (Rgba (of_int (rgb_r out)) (of_int (rgb_g out)) (of_int (rgb_b out))
                        (real (px_a pixel) / 255))
                  (of_int (x * ps)) (of_int (y * ps)) (of_int ps) (of_int ps)])"

definition renderRainbow :: "grid \<Rightarrow> real \<Rightarrow> real \<Rightarrow> int \<Rightarrow> size2 \<Rightarrow> fillRect list" where
  "renderRainbow pixelGrid inten t ps gridSize =
     forGrid gridSize (rainbowCell pixelGrid ps inten t)"

subsection \<open>AnimationEngine: state and rendering\<close>

record animationEngine =
  canvas :: "canvas option"
  pixelateEngine :: "pixelateEngine option"
  animationId :: "nat option"
  isRunning :: bool
  currentEffect :: string
  intensity :: real
  speed :: real
  time :: real
  pixelGrid :: "grid option"
  baseImageData :: "imageData option"
  onFrameCapture :: bool
  frameCount :: nat

text \<open>
  The 2D context \<^verbatim>\<open>ctx\<close> is obtained from the canvas in \<^verbatim>\<open>init\<close> and is \<^verbatim>\<open>null\<close> exactly
  when the canvas is. \<^verbatim>\<open>onFrameCapture\<close> tells whether a callback is set.
\<close>

definition AnimationEngine_init ::
  "canvas \<Rightarrow> pixelateEngine \<Rightarrow> animationEngine \<Rightarrow> animationEngine" where
  "AnimationEngine_init cv pe a = a\<lparr>canvas := Some cv, pixelateEngine := Some pe\<rparr>"

definition setEffect :: "string \<Rightarrow> animationEngine \<Rightarrow> animationEngine" where
  "setEffect effect a = a\<lparr>currentEffect := effect\<rparr>"

definition setIntensity :: "real \<Rightarrow> animationEngine \<Rightarrow> animationEngine" where
  "setIntensity v a = a\<lparr>intensity := max 1 (min 10 v)\<rparr>"

definition setSpeed :: "real \<Rightarrow> animationEngine \<Rightarrow> animationEngine" where
  "setSpeed v a = a\<lparr>speed := max 1 (min 10 v)\<rparr>"

definition reset :: "animationEngine \<Rightarrow> animationEngine" where
  "reset a = a\<lparr>time := 0, frameCount := 0\<rparr>"

text \<open>\<^verbatim>\<open>this.canvas.width || 400\<close>.\<close>

definition orElse :: "int \<Rightarrow> int \<Rightarrow> int" where
  "orElse v d = (if v = 0 then d else v)"

definition prepare :: "resampler \<Rightarrow> animationEngine \<Rightarrow> error + animationEngine" where
  "prepare drawImage a =
     (case pixelateEngine a of
        None \<Rightarrow> Inr a
      | Some pe \<Rightarrow>
          (case canvas a of
             None \<Rightarrow> Inl TypeError
           | Some cv \<Rightarrow>
               let (img, pe1) = getPixelatedData (of_int (orElse (cwidth cv) 400))
                                                 (of_int (orElse (cheight cv) 400)) pe;
                   sz = getOutputSize pe1;
                   cv1 = cv\<lparr>cwidth := sz_width sz, cheight := sz_height sz\<rparr>
               in Inr (a\<lparr>baseImageData := img, canvas := Some cv1,
                         pixelateEngine := Some pe1,
                         pixelGrid := getPixelGrid drawImage pe1\<rparr>)))"

text \<open>
  \<^verbatim>\<open>render()\<close>: the commands it issues on the context, and the random generator as the
  call leaves it. Without image data or grid it returns at once, having drawn nothing.
\<close>

definition render :: "animationEngine \<Rightarrow> rng \<Rightarrow> error + (fillRect list \<times> rng)" where
  "render a rnd =
     (case baseImageData a of
        None \<Rightarrow> Inr ([], rnd)
      | Some _ \<Rightarrow>
     (case pixelGrid a of
        None \<Rightarrow> Inr ([], rnd)
      | Some gr \<Rightarrow>
     (case pixelateEngine a of
        None \<Rightarrow> Inl TypeError
      | Some pe \<Rightarrow>
     (case canvas a of
        None \<Rightarrow> Inl TypeError
      | Some cv \<Rightarrow>
          let ps = pixelSize pe;
              gridSize = getGridSize pe;
              clear = FillRect None (Named ''#0f0f23'') 0 0
                        (of_int (cwidth cv)) (of_int (cheight cv));
              (cmds, rnd') =
                (if currentEffect a = ''glitch''
                   then renderGlitch gr (intensity a) (time a) ps gridSize rnd
                 else if currentEffect a = ''float''
                   then (renderFloat gr (intensity a) (time a) ps gridSize, rnd)
                 else if currentEffect a = ''sparkle''
                   then (renderSparkle gr (intensity a) (time a) ps gridSize, rnd)
                 else if currentEffect a = ''wave''
                   then (renderWave gr (intensity a) (time a) ps gridSize, rnd)
                 else if currentEffect a = ''rainbow''
                   then (renderRainbow gr (intensity a) (time a) ps gridSize, rnd)
                 else (renderStatic gr ps gridSize, rnd))
          in Inr (clear # cmds, rnd')))))"

subsection \<open>GifExporter and the browser around the two engines\<close>

datatype message = Capturing int int | Encoding

text \<open>
  What the exporter does to the outside: calls of the progress, completion and error
  callbacks, calls of the encoder, and the console.
\<close>

datatype logEvent =
    Progress int message
  | GifAddFrame int
  | GifRender
  | GifAbort
  | Complete
  | ErrorCallback
  | ConsoleError
  | FrameCapture nat

text \<open>The \<^verbatim>\<open>GIF\<close> instance of gif.js: the frames handed to it, each with its delay.\<close>

record gifEncoder =
  frames :: "(fillRect list \<times> int) list"
  quality :: int
  gwidth :: int
  gheight :: int

record gifExporter =
  gif :: "gifEncoder option"
  isExporting :: bool
  framesCaptured :: int
  totalFrames :: int
  frameDelay :: int
  onProgress :: bool
  onComplete :: bool
  onError :: bool

text \<open>The \<^verbatim>\<open>options\<close> object: an absent property is \<open>None\<close>.\<close>

record exportOptions =
  opt_frames :: "int option"
  opt_delay :: "int option"
  opt_quality :: "int option"
  opt_captureInterval :: "int option"

text \<open>\<^verbatim>\<open>options.frames || 30\<close>: an absent property and 0 both give the default.\<close>

definition optOrElse :: "int option \<Rightarrow> int \<Rightarrow> int" where
  "optOrElse v d = (case v of None \<Rightarrow> d | Some n \<Rightarrow> orElse n d)"

text \<open>The variables the closure \<^verbatim>\<open>captureLoop\<close> of \<^verbatim>\<open>startExport\<close> captures.\<close>

record captureLoop =
  wasRunning :: bool
  captureInterval :: int
  frameCounter :: int

datatype callback = Animate | CaptureLoop captureLoop

text \<open>
  The browser state shared by the classes: the two objects, whether gif.js is loaded,
  the image resampler, the callbacks waiting for the next animation frame with their
  handles, the random generator, the commands drawn on the animation canvas so far, and
  the trace of outside calls.
\<close>

record world =
  ae :: animationEngine
  ge :: gifExporter
  GIF_defined :: bool
  browserDrawImage :: resampler
  rafQueue :: "(nat \<times> callback) list"
  lastHandle :: nat
  mathRandom :: rng
  surface :: "fillRect list"
  trace :: "logEvent list"

definition requestAnimationFrame :: "callback \<Rightarrow> world \<Rightarrow> nat \<times> world" where
  "requestAnimationFrame cb w =
     (let h = lastHandle w + 1
      in (h, w\<lparr>rafQueue := rafQueue w @ [(h, cb)], lastHandle := h\<rparr>))"

definition cancelAnimationFrame :: "nat \<Rightarrow> world \<Rightarrow> world" where
  "cancelAnimationFrame h w = w\<lparr>rafQueue := filter (\<lambda>(i, cb). i \<noteq> h) (rafQueue w)\<rparr>"

text \<open>\<^verbatim>\<open>animationEngine.render()\<close> in the browser: the commands go to the surface.\<close>

definition renderFrame :: "world \<Rightarrow> error + world" where
  "renderFrame w =
     (case render (ae w) (mathRandom w) of
        Inl e \<Rightarrow> Inl e
      | Inr (cmds, rnd') \<Rightarrow> Inr (w\<lparr>surface := surface w @ cmds, mathRandom := rnd'\<rparr>))"

definition stop :: "world \<Rightarrow> world" where
  "stop w =
     (let w1 = w\<lparr>ae := (ae w)\<lparr>isRunning := False\<rparr>\<rparr>
      in case animationId (ae w1) of
           None \<Rightarrow> w1
         | Some i \<Rightarrow>
             if i = 0 then w1
             else (cancelAnimationFrame i w1)\<lparr>ae := (ae w1)\<lparr>animationId := None\<rparr>\<rparr>)"

definition animate :: "world \<Rightarrow> error + world" where
  "animate w =
     (if \<not> isRunning (ae w) then Inr w
      else
        case renderFrame w of
          Inl e \<Rightarrow> Inl e
        | Inr w1 \<Rightarrow>
            let a1 = (ae w1)\<lparr>time := time (ae w1) + 0.016 * (speed (ae w1) / 5),
                               frameCount := frameCount (ae w1) + 1\<rparr>;
                w2 = w1\<lparr>ae := a1\<rparr>;
                w3 = (if onFrameCapture a1
                      then w2\<lparr>trace := trace w2 @ [FrameCapture (frameCount a1)]\<rparr>
                      else w2);
                (h, w4) = requestAnimationFrame Animate w3
            in Inr (w4\<lparr>ae := (ae w4)\<lparr>animationId := Some h\<rparr>\<rparr>))"

definition start :: "world \<Rightarrow> error + world" where
  "start w =
     (if isRunning (ae w) then Inr w
      else
        case prepare (browserDrawImage w) (ae w) of
          Inl e \<Rightarrow> Inl e
        | Inr a1 \<Rightarrow> animate (w\<lparr>ae := a1\<lparr>isRunning := True, time := 0, frameCount := 0\<rparr>\<rparr>))"

text \<open>
  \<^verbatim>\<open>GifExporter.init(width, height, options)\<close>; the result tells whether the encoder
  was created.
\<close>

definition GifExporter_init :: "int \<Rightarrow> int \<Rightarrow> exportOptions \<Rightarrow> world \<Rightarrow> bool \<times> world" where
  "GifExporter_init w0 h0 options w =
     (if \<not> GIF_defined w
      then let w1 = w\<lparr>trace := trace w @ [ConsoleError]\<rparr>
           in (False, if onError (ge w1) then w1\<lparr>trace := trace w1 @ [ErrorCallback]\<rparr> else w1)
      else
        let g1 = (ge w)\<lparr>totalFrames := optOrElse (opt_frames options) 30,
                        frameDelay := optOrElse (opt_delay options) 50\<rparr>;
            g2 = g1\<lparr>gif := Some \<lparr>frames = [], quality = optOrElse (opt_quality options) 10,
                                  gwidth = w0, gheight = h0\<rparr>\<rparr>
        in (True, w\<lparr>ge := g2\<lparr>framesCaptured := 0\<rparr>\<rparr>))"

text \<open>
  \<^verbatim>\<open>addFrame(canvas, delay)\<close>. Its boolean result is not used by the only caller and
  is left out.
\<close>

definition addFrame :: "int \<Rightarrow> world \<Rightarrow> world" where
  "addFrame delay w =
     (case gif (ge w) of
        None \<Rightarrow> w
      | Some enc \<Rightarrow>
          if \<not> isExporting (ge w) then w
          else
            let d = orElse delay (frameDelay (ge w));
                g1 = (ge w)\<lparr>gif := Some (enc\<lparr>frames := frames enc @ [(surface w, d)]\<rparr>),
                            framesCaptured := framesCaptured (ge w) + 1\<rparr>;
                w1 = w\<lparr>ge := g1, trace := trace w @ [GifAddFrame d]\<rparr>
            in if onProgress g1
               then let captureProgress =
                          \<lfloor>real_of_int (framesCaptured g1) / real_of_int (totalFrames g1) * 50\<rfloor>
                    in w1\<lparr>trace := trace w1
                            @ [Progress captureProgress
                                 (Capturing (framesCaptured g1) (totalFrames g1))]\<rparr>
               else w1)"

text \<open>One call of the closure \<^verbatim>\<open>captureLoop\<close>, with its captured variables \<open>cl\<close>.\<close>

definition captureLoop :: "captureLoop \<Rightarrow> world \<Rightarrow> error + world" where
  "captureLoop cl w =
     (if \<not> isExporting (ge w) \<or> framesCaptured (ge w) \<ge> totalFrames (ge w)
      then
        case (if isExporting (ge w)
              then let w1 = (if onProgress (ge w)
                             then w\<lparr>trace := trace w @ [Progress 50 Encoding]\<rparr> else w)
                   in case gif (ge w1) of
                        None \<Rightarrow> Inl TypeError
                      | Some enc \<Rightarrow> Inr (w1\<lparr>trace := trace w1 @ [GifRender]\<rparr>)
              else Inr w) of
          Inl e \<Rightarrow> Inl e
        | Inr w2 \<Rightarrow> if wasRunning cl then start w2 else Inr w2
      else
        case renderFrame
               (w\<lparr>ae := (ae w)\<lparr>time := time (ae w) + 0.016 * (speed (ae w) / 5)\<rparr>\<rparr>) of
          Inl e \<Rightarrow> Inl e
        | Inr w1 \<Rightarrow>
            let cl1 = cl\<lparr>frameCounter := frameCounter cl + 1\<rparr>;
                w2 = (if js_rem (of_int (frameCounter cl1)) (of_int (captureInterval cl1)) = 0
                      then addFrame (frameDelay (ge w1)) w1 else w1)
            in Inr (snd (requestAnimationFrame (CaptureLoop cl1) w2)))"

definition startExport :: "exportOptions \<Rightarrow> world \<Rightarrow> error + world" where
  "startExport options w =
     (case canvas (ae w) of
        None \<Rightarrow> Inl TypeError
      | Some cv \<Rightarrow>
          let (ok, w1) = GifExporter_init (cwidth cv) (cheight cv) options w
          in if \<not> ok then Inr w1
             else
               let w2 = w1\<lparr>ge := (ge w1)\<lparr>isExporting := True, framesCaptured := 0\<rparr>\<rparr>;
                   wasRunning = isRunning (ae w2);
                   w3 = stop w2;
                   w4 = w3\<lparr>ae := reset (ae w3)\<rparr>;
                   captureInterval = optOrElse (opt_captureInterval options) 2
               in captureLoop \<lparr>wasRunning = wasRunning, captureInterval = captureInterval,
                               frameCounter = 0\<rparr> w4)"

definition cancel :: "world \<Rightarrow> world" where
  "cancel w =
     (let w1 = w\<lparr>ge := (ge w)\<lparr>isExporting := False\<rparr>\<rparr>
      in case gif (ge w1) of
           None \<Rightarrow> w1
         | Some enc \<Rightarrow> w1\<lparr>ge := (ge w1)\<lparr>gif := None\<rparr>, trace := trace w1 @ [GifAbort]\<rparr>)"

text \<open>
  The handlers \<^verbatim>\<open>init\<close> binds to the encoder's \<^verbatim>\<open>progress\<close> and \<^verbatim>\<open>finished\<close> events.
\<close>

definition onGifProgress :: "real \<Rightarrow> world \<Rightarrow> world" where
  "onGifProgress progress w =
     (if onProgress (ge w)
      then w\<lparr>trace := trace w @ [Progress (50 + \<lfloor>progress * 50\<rfloor>) Encoding]\<rparr>
      else w)"

definition onGifFinished :: "world \<Rightarrow> world" where
  "onGifFinished w =
     (let w1 = w\<lparr>ge := (ge w)\<lparr>isExporting := False\<rparr>\<rparr>
      in if onComplete (ge w1) then w1\<lparr>trace := trace w1 @ [Complete]\<rparr> else w1)"

subsection \<open>Events\<close>

text \<open>
  What happens to the page between two runs of its code: the browser delivers an
  animation frame and runs the callbacks waiting for it in the order they were
  requested (callbacks requested meanwhile wait for the next frame), the user cancels
  the export, or the encoder reports. The run stops at the first uncaught error.
\<close>

datatype event = AnimationFrame | Cancel | GifProgress real | GifFinished

definition runCallback :: "callback \<Rightarrow> world \<Rightarrow> error + world" where
  "runCallback cb w = (case cb of Animate \<Rightarrow> animate w | CaptureLoop cl \<Rightarrow> captureLoop cl w)"

fun runCallbacks :: "(nat \<times> callback) list \<Rightarrow> world \<Rightarrow> error + world" where
  "runCallbacks [] w = Inr w"
| "runCallbacks ((h, cb) # cbs) w =
     (case runCallback cb w of Inl e \<Rightarrow> Inl e | Inr w1 \<Rightarrow> runCallbacks cbs w1)"

definition step :: "event \<Rightarrow> world \<Rightarrow> error + world" where
  "step ev w =
     (case ev of
        AnimationFrame \<Rightarrow> runCallbacks (rafQueue w) (w\<lparr>rafQueue := []\<rparr>)
      | Cancel \<Rightarrow> Inr (cancel w)
      | GifProgress p \<Rightarrow> Inr (case gif (ge w) of None \<Rightarrow> w | Some enc \<Rightarrow> onGifProgress p w)
      | GifFinished \<Rightarrow> Inr (case gif (ge w) of None \<Rightarrow> w | Some enc \<Rightarrow> onGifFinished w))"

fun run :: "event list \<Rightarrow> world \<Rightarrow> error + world" where
  "run [] w = Inr w"
| "run (ev # evs) w = (case step ev w of Inl e \<Rightarrow> Inl e | Inr w1 \<Rightarrow> run evs w1)"

subsection \<open>Scenarios and the states of an export\<close>

text \<open>An export started with \<open>options\<close>, followed by the events \<open>evs\<close>.\<close>

definition exportAndRun :: "exportOptions \<Rightarrow> event list \<Rightarrow> world \<Rightarrow> error + world" where
  "exportAndRun options evs w =
     (case startExport options w of Inl e \<Rightarrow> Inl e | Inr w1 \<Rightarrow> run evs w1)"

text \<open>
  The engine can render without a \<^verbatim>\<open>TypeError\<close>: it has a canvas, and a pixelation
  engine unless it has nothing to draw. This holds from \<^verbatim>\<open>init\<close> on.
\<close>

definition renderable :: "animationEngine \<Rightarrow> bool" where
  "renderable a \<longleftrightarrow>
     canvas a \<noteq> None
     \<and> (pixelateEngine a \<noteq> None \<or> baseImageData a = None \<or> pixelGrid a = None)"

text \<open>
  A capture in progress with \<open>k\<close> of \<open>N\<close> frames captured: the exporter is exporting, its
  encoder holds \<open>k\<close> frames, the live animation is stopped, and the last progress
  reported, if any frame was captured, is that of frame \<open>k\<close>.
\<close>

definition capturing :: "int \<Rightarrow> nat \<Rightarrow> world \<Rightarrow> bool" where
  "capturing N k w \<longleftrightarrow>
     isExporting (ge w) \<and> framesCaptured (ge w) = int k \<and> totalFrames (ge w) = N
     \<and> (\<exists>enc. gif (ge w) = Some enc \<and> length (frames enc) = k)
     \<and> renderable (ae w) \<and> \<not> isRunning (ae w)
     \<and> (onProgress (ge w) \<and> 0 < k \<longrightarrow>
          (\<exists>pre. trace w = pre @ [Progress \<lfloor>real k / real_of_int N * 50\<rfloor>
                                     (Capturing (int k) N)]))"

text \<open>The running flag and the clock of the engine, after a run that did not fail.\<close>

definition engineStatus :: "error + world \<Rightarrow> error + bool \<times> real" where
  "engineStatus r = map_sum id (\<lambda>w. (isRunning (ae w), time (ae w))) r"

subsection \<open>Example states\<close>

definition exampleImage :: image where
  "exampleImage = \<lparr>width = 600, height = 300, src = ''photo.png''\<rparr>"

definition loadedEngine :: pixelateEngine where
  "loadedEngine =
     \<lparr>originalImage = Some exampleImage, originalImageData = None, pixelSize = 8,
      outputWidth = 0, outputHeight = 0, tempCanvas = \<lparr>cwidth = 300, cheight = 150\<rparr>\<rparr>"

text \<open>Two images whose scaled size the rounding decides.\<close>

definition wideEngine :: pixelateEngine where
  "wideEngine =
     \<lparr>originalImage = Some \<lparr>width = 1552, height = 97, src = ''wide.png''\<rparr>,
      originalImageData = None, pixelSize = 8,
      outputWidth = 0, outputHeight = 0, tempCanvas = \<lparr>cwidth = 300, cheight = 150\<rparr>\<rparr>"

definition landscapeEngine :: pixelateEngine where
  "landscapeEngine =
     \<lparr>originalImage = Some \<lparr>width = 578, height = 289, src = ''landscape.png''\<rparr>,
      originalImageData = None, pixelSize = 7,
      outputWidth = 0, outputHeight = 0, tempCanvas = \<lparr>cwidth = 300, cheight = 150\<rparr>\<rparr>"

definition emptyEngine :: pixelateEngine where
  "emptyEngine =
     \<lparr>originalImage = None, originalImageData = None, pixelSize = 8,
      outputWidth = 0, outputHeight = 0, tempCanvas = \<lparr>cwidth = 300, cheight = 150\<rparr>\<rparr>"

definition opaqueRed :: pixel where
  "opaqueRed = \<lparr>px_r = 255, px_g = 0, px_b = 0, px_a = 255\<rparr>"

definition faintBlue :: pixel where
  "faintBlue = \<lparr>px_r = 0, px_g = 0, px_b = 255, px_a = 5\<rparr>"

text \<open>A resampler giving an opaque red first cell and faint blue cells after it.\<close>

definition redThenBlue :: resampler where
  "redThenBlue img w h i =
     (if i div 4 = 0 then [255, 0, 0, 255] ! (i mod 4) else [0, 0, 255, 5] ! (i mod 4))"

definition twoCellEngine :: "string \<Rightarrow> animationEngine" where
  "twoCellEngine effect =
     \<lparr>canvas = Some \<lparr>cwidth = 16, cheight = 8\<rparr>,
      pixelateEngine = Some (loadedEngine\<lparr>outputWidth := 16, outputHeight := 8\<rparr>),
      animationId = None, isRunning = False, currentEffect = effect,
      intensity = 5, speed = 5, time = 0,
      pixelGrid = Some [[opaqueRed, faintBlue]],
      baseImageData = Some \<lparr>iwidth = 16, iheight = 8\<rparr>,
      onFrameCapture = False, frameCount = 0\<rparr>"

definition rndLow :: rng where
  "rndLow n = 0"

definition rndHigh :: rng where
  "rndHigh n = 9 / 10"

definition white :: pixel where
  "white = \<lparr>px_r = 255, px_g = 255, px_b = 255, px_a = 255\<rparr>"

definition whiteCellEngine :: animationEngine where
  "whiteCellEngine =
     \<lparr>canvas = Some \<lparr>cwidth = 8, cheight = 8\<rparr>,
      pixelateEngine = Some (loadedEngine\<lparr>outputWidth := 8, outputHeight := 8\<rparr>),
      animationId = None, isRunning = False, currentEffect = ''rainbow'',
      intensity = 10, speed = 5, time = 0,
      pixelGrid = Some [[white]],
      baseImageData = Some \<lparr>iwidth = 8, iheight = 8\<rparr>,
      onFrameCapture = False, frameCount = 0\<rparr>"

definition appOptions :: exportOptions where
  "appOptions = \<lparr>opt_frames = Some 30, opt_delay = Some 20, opt_quality = Some 10,
                  opt_captureInterval = Some 2\<rparr>"

definition runningWorld :: world where
  "runningWorld =
     \<lparr>ae = \<lparr>canvas = Some \<lparr>cwidth = 16, cheight = 8\<rparr>,
            pixelateEngine = Some (loadedEngine\<lparr>outputWidth := 16, outputHeight := 8\<rparr>),
            animationId = Some 7, isRunning = True, currentEffect = ''none'',
            intensity = 5, speed = 5, time = 8 / 5,
            pixelGrid = Some [[opaqueRed, faintBlue]],
            baseImageData = Some \<lparr>iwidth = 16, iheight = 8\<rparr>,
            onFrameCapture = False, frameCount = 100\<rparr>,
      ge = \<lparr>gif = None, isExporting = False, framesCaptured = 0, totalFrames = 30,
            frameDelay = 50, onProgress = True, onComplete = True, onError = True\<rparr>,
      GIF_defined = True, browserDrawImage = redThenBlue,
      rafQueue = [(7, Animate)], lastHandle = 7, mathRandom = rndLow,
      surface = [], trace = []\<rparr>"

section \<open>Properties of the pixelation engine\<close>

text \<open>
  The rounding at a known exponent: for \<open>2 ^ n \<le> |x| < 2 ^ (n + 1)\<close> the spacing of the
  binary64 numbers is \<open>2 ^ (n - 52)\<close>, and for \<open>2 ^ - n \<le> |x| < 2 ^ (1 - n)\<close> it is
  \<open>2 ^ - (52 + n)\<close>.
\<close>

lemma floor_log2:
  fixes a :: real
  assumes "2 powr of_int e \<le> a" and "a < 2 powr of_int (e + 1)"
  shows "\<lfloor>log 2 a\<rfloor> = e"
proof -
  have pos: "0 < a" using assms(1) by (smt (verit) powr_gt_zero)
  have "of_int e \<le> log 2 a" using assms(1) pos by (simp add: powr_le_iff)
  moreover have "log 2 a < of_int (e + 1)" using assms(2) pos by (simp add: less_powr_iff)
  ultimately show ?thesis by (simp add: floor_eq_iff)
qed

lemma binary64_normal:
  assumes "2 powr of_int e \<le> \<bar>x\<bar>" and "\<bar>x\<bar> < 2 powr of_int (e + 1)" and "- 1022 \<le> e"
  shows "binary64 x
         = of_int (roundTiesToEven (x * 2 powr of_int (52 - e))) * 2 powr of_int (e - 52)"
proof -
  have "x \<noteq> 0" using assms(1) by (smt (verit) powr_gt_zero abs_zero)
  moreover have "\<lfloor>log 2 \<bar>x\<bar>\<rfloor> = e" using floor_log2 [OF assms(1,2)] .
  ultimately show ?thesis using assms(3) by (simp add: binary64_def Let_def)
qed

lemma binary64_ge1:
  assumes "n \<le> 52" and "2 ^ n \<le> \<bar>x\<bar>" and "\<bar>x\<bar> < 2 ^ Suc n"
  shows "binary64 x = of_int (roundTiesToEven (x * 2 ^ (52 - n))) / 2 ^ (52 - n)"
proof -
  have a: "(2::real) powr of_int (int n) = 2 ^ n" by (simp add: powr_realpow)
  have b: "(2::real) powr of_int (int n + 1) = 2 ^ Suc n"
    using powr_realpow [of 2 "Suc n"] by (simp add: add.commute)
  have c: "(2::real) powr of_int (52 - int n) = 2 ^ (52 - n)"
    using assms(1) powr_realpow [of 2 "52 - n"] by (simp add: of_nat_diff)
  have d: "(2::real) powr of_int (int n - 52) = 1 / 2 ^ (52 - n)"
  proof -
    have "(2::real) powr of_int (int n - 52) = 2 powr (- of_int (52 - int n))" by simp
    also have "\<dots> = 1 / 2 powr of_int (52 - int n)" by (simp only: powr_minus_divide)
    finally show ?thesis using c by simp
  qed
  have "- 1022 \<le> int n" by simp
  from binary64_normal [of "int n" x, unfolded a b, OF assms(2,3) this]
  show ?thesis unfolding c d by simp
qed

lemma binary64_lt1:
  assumes "n \<le> 1022" and "1 \<le> \<bar>x\<bar> * 2 ^ n" and "\<bar>x\<bar> * 2 ^ n < 2"
  shows "binary64 x = of_int (roundTiesToEven (x * 2 ^ (52 + n))) / 2 ^ (52 + n)"
proof -
  have a: "(2::real) powr of_int (- int n) = 1 / 2 ^ n"
    using powr_realpow [of 2 n] by (simp add: powr_minus_divide)
  have b: "(2::real) powr of_int (- int n + 1) = 2 / 2 ^ n"
  proof -
    have "(2::real) powr (of_int (- int n) + 1) = 2 powr of_int (- int n) * 2 powr 1"
      by (rule powr_add)
    moreover have "real_of_int (- int n + 1) = of_int (- int n) + 1" by simp
    ultimately have "(2::real) powr of_int (- int n + 1) = 2 powr of_int (- int n) * 2"
      by (simp only: powr_one_gt_zero_iff) simp
    then show ?thesis using a by simp
  qed
  have c: "(2::real) powr of_int (52 - (- int n)) = 2 ^ (52 + n)"
    using powr_realpow [of 2 "52 + n"] by (simp add: add.commute)
  have d: "(2::real) powr of_int (- int n - 52) = 1 / 2 ^ (52 + n)"
  proof -
    have "real_of_int (- int n - 52) = - real_of_int (52 - (- int n))" by simp
    then have "(2::real) powr of_int (- int n - 52) = 2 powr (- of_int (52 - (- int n)))"
      by (simp only:)
    also have "\<dots> = 1 / 2 powr of_int (52 - (- int n))" by (simp only: powr_minus_divide)
    finally show ?thesis using c by simp
  qed
  have lo: "2 powr of_int (- int n) \<le> \<bar>x\<bar>"
    unfolding a using assms(2) by (simp add: field_simps)
  have hi: "\<bar>x\<bar> < 2 powr of_int (- int n + 1)"
    unfolding b using assms(3) by (simp add: field_simps)
  have "- 1022 \<le> - int n" using assms(1) by simp
  from binary64_normal [OF lo hi this]
  show ?thesis unfolding c d by simp
qed

lemma binary64_cong: "x = y \<Longrightarrow> binary64 y = v \<Longrightarrow> binary64 x = v"
  by simp

text \<open>The stored output size from the intermediate values of the computation.\<close>

lemma getPixelatedData_steps:
  assumes "originalImage e = Some img"
    and "min (min (binary64 (maxW / real (width img))) (binary64 (maxH / real (height img)))) 1
           = scale"
    and "\<lfloor>binary64 (real (width img) * scale)\<rfloor> = scaledW"
    and "\<lfloor>binary64 (real (height img) * scale)\<rfloor> = scaledH"
    and "\<lceil>binary64 (real_of_int scaledW / real_of_int (pixelSize e))\<rceil> = gridW"
    and "\<lceil>binary64 (real_of_int scaledH / real_of_int (pixelSize e))\<rceil> = gridH"
  shows "outputWidth (snd (getPixelatedData maxW maxH e)) = gridW * pixelSize e"
    and "outputHeight (snd (getPixelatedData maxW maxH e)) = gridH * pixelSize e"
  using assms by (simp_all add: getPixelatedData_def Let_def)

text \<open>
  A 1552 by 97 image in a 400 by 400 box at block size 8. The scale \<open>400 / 1552\<close> rounds
  down, \<open>97 * scale\<close> rounds to the binary64 number just below 25, the scaled height is 24
  and the stored output size is 400 by 24; exact arithmetic would give 400 by 32.
\<close>

lemma wide_scale:
  "binary64 (400 / 1552) = 290180388361501 / 2 ^ 50"
  "binary64 (400 / 97) = 290180388361501 / 2 ^ 46"
  by (subst binary64_lt1 [of 2], simp_all add: roundTiesToEven_def Let_def)
     (subst binary64_ge1 [of 2], simp_all add: roundTiesToEven_def Let_def)

lemma wide_scaled:
  "binary64 (1552 * (290180388361501 / 2 ^ 50)) = 7036874417766399 / 2 ^ 44"
  "binary64 (97 * (290180388361501 / 2 ^ 50)) = 7036874417766399 / 2 ^ 48"
  by (subst binary64_ge1 [of 8], simp_all add: roundTiesToEven_def Let_def)
     (subst binary64_ge1 [of 4], simp_all add: roundTiesToEven_def Let_def)

lemma wide_grid:
  "binary64 (399 / 8) = 399 / 8"
  "binary64 (24 / 8) = 3"
  by (subst binary64_ge1 [of 5], simp_all add: roundTiesToEven_def Let_def)
     (subst binary64_ge1 [of 1], simp_all add: roundTiesToEven_def Let_def)

lemma wide_output:
  "outputWidth (snd (getPixelatedData 400 400 wideEngine)) = 400"
  "outputHeight (snd (getPixelatedData 400 400 wideEngine)) = 24"
proof -
  let ?img = "\<lparr>width = 1552, height = 97, src = ''wide.png''\<rparr>"
  let ?s = "290180388361501 / 2 ^ 50 :: real"
  have i: "originalImage wideEngine = Some ?img" and p: "pixelSize wideEngine = 8"
    by (simp_all add: wideEngine_def)
  have s1: "binary64 (400 / real (width ?img)) = ?s"
    by (rule binary64_cong [OF _ wide_scale(1)]) simp
  have s2: "binary64 (400 / real (height ?img)) = 290180388361501 / 2 ^ 46"
    by (rule binary64_cong [OF _ wide_scale(2)]) simp
  have sc: "min (min (binary64 (400 / real (width ?img))) (binary64 (400 / real (height ?img)))) 1
              = ?s"
    unfolding s1 s2 by simp
  have w1: "binary64 (real (width ?img) * ?s) = 7036874417766399 / 2 ^ 44"
    by (rule binary64_cong [OF _ wide_scaled(1)]) simp
  have h1: "binary64 (real (height ?img) * ?s) = 7036874417766399 / 2 ^ 48"
    by (rule binary64_cong [OF _ wide_scaled(2)]) simp
  have sw: "\<lfloor>binary64 (real (width ?img) * ?s)\<rfloor> = 399" unfolding w1 by simp
  have sh: "\<lfloor>binary64 (real (height ?img) * ?s)\<rfloor> = 24" unfolding h1 by simp
  have w2: "binary64 (real_of_int 399 / real_of_int (pixelSize wideEngine)) = 399 / 8"
    by (rule binary64_cong [OF _ wide_grid(1)]) (simp add: p)
  have h2: "binary64 (real_of_int 24 / real_of_int (pixelSize wideEngine)) = 3"
    by (rule binary64_cong [OF _ wide_grid(2)]) (simp add: p)
  have gw: "\<lceil>binary64 (real_of_int 399 / real_of_int (pixelSize wideEngine))\<rceil> = 50"
    unfolding w2 by simp
  have gh: "\<lceil>binary64 (real_of_int 24 / real_of_int (pixelSize wideEngine))\<rceil> = 3"
    unfolding h2 by simp
  from getPixelatedData_steps [OF i sc sw sh gw gh] p
  show "outputWidth (snd (getPixelatedData 400 400 wideEngine)) = 400"
    and "outputHeight (snd (getPixelatedData 400 400 wideEngine)) = 24"
    by simp_all
qed

text \<open>
  A 578 by 289 image in the same box at block size 7: \<open>578 * scale\<close> rounds to the number
  just below 400, and the stored output size is 399 by 203 (exactly: 406 by 203).
\<close>

lemma landscape_scale:
  "binary64 (400 / 578) = 389584742852119 / 2 ^ 49"
  "binary64 (400 / 289) = 389584742852119 / 2 ^ 48"
  by (subst binary64_lt1 [of 1], simp_all add: roundTiesToEven_def Let_def)
     (subst binary64_ge1 [of 0], simp_all add: roundTiesToEven_def Let_def)

lemma landscape_scaled:
  "binary64 (578 * (389584742852119 / 2 ^ 49)) = 7036874417766399 / 2 ^ 44"
  "binary64 (289 * (389584742852119 / 2 ^ 49)) = 7036874417766399 / 2 ^ 45"
  by (subst binary64_ge1 [of 8], simp_all add: roundTiesToEven_def Let_def)
     (subst binary64_ge1 [of 7], simp_all add: roundTiesToEven_def Let_def)

lemma landscape_grid:
  "binary64 (399 / 7) = 57"
  "binary64 (199 / 7) = 8001931480774363 / 2 ^ 48"
  by (subst binary64_ge1 [of 5], simp_all add: roundTiesToEven_def Let_def)
     (subst binary64_ge1 [of 4], simp_all add: roundTiesToEven_def Let_def)

lemma landscape_output:
  "outputWidth (snd (getPixelatedData 400 400 landscapeEngine)) = 399"
  "outputHeight (snd (getPixelatedData 400 400 landscapeEngine)) = 203"
proof -
  let ?img = "\<lparr>width = 578, height = 289, src = ''landscape.png''\<rparr>"
  let ?s = "389584742852119 / 2 ^ 49 :: real"
  have i: "originalImage landscapeEngine = Some ?img" and p: "pixelSize landscapeEngine = 7"
    by (simp_all add: landscapeEngine_def)
  have s1: "binary64 (400 / real (width ?img)) = ?s"
    by (rule binary64_cong [OF _ landscape_scale(1)]) simp
  have s2: "binary64 (400 / real (height ?img)) = 389584742852119 / 2 ^ 48"
    by (rule binary64_cong [OF _ landscape_scale(2)]) simp
  have sc: "min (min (binary64 (400 / real (width ?img))) (binary64 (400 / real (height ?img)))) 1
              = ?s"
    unfolding s1 s2 by simp
  have w1: "binary64 (real (width ?img) * ?s) = 7036874417766399 / 2 ^ 44"
    by (rule binary64_cong [OF _ landscape_scaled(1)]) simp
  have h1: "binary64 (real (height ?img) * ?s) = 7036874417766399 / 2 ^ 45"
    by (rule binary64_cong [OF _ landscape_scaled(2)]) simp
  have sw: "\<lfloor>binary64 (real (width ?img) * ?s)\<rfloor> = 399" unfolding w1 by simp
  have sh: "\<lfloor>binary64 (real (height ?img) * ?s)\<rfloor> = 199" unfolding h1 by simp
  have w2: "binary64 (real_of_int 399 / real_of_int (pixelSize landscapeEngine)) = 57"
    by (rule binary64_cong [OF _ landscape_grid(1)]) (simp add: p)
  have h2: "binary64 (real_of_int 199 / real_of_int (pixelSize landscapeEngine))
              = 8001931480774363 / 2 ^ 48"
    by (rule binary64_cong [OF _ landscape_grid(2)]) (simp add: p)
  have gw: "\<lceil>binary64 (real_of_int 399 / real_of_int (pixelSize landscapeEngine))\<rceil> = 57"
    unfolding w2 by simp
  have gh: "\<lceil>binary64 (real_of_int 199 / real_of_int (pixelSize landscapeEngine))\<rceil> = 29"
    unfolding h2 by simp
  from getPixelatedData_steps [OF i sc sw sh gw gh] p
  show "outputWidth (snd (getPixelatedData 400 400 landscapeEngine)) = 399"
    and "outputHeight (snd (getPixelatedData 400 400 landscapeEngine)) = 203"
    by simp_all
qed

text \<open>
  C1. With an image of positive size loaded, a block size between 4 and 64 and a positive
  bounding box, \<^verbatim>\<open>getPixelatedData\<close> computes scale = min(maxW / srcW, maxH / srcH, 1),
  scaledW/H = floor(srcW/H * scale) and gridW/H = ceil(scaled / blockSize), each quotient
  and product as the host's arithmetic gives it, and stores outputWidth = gridW *
  blockSize and outputHeight = gridH * blockSize, leaving the block size as it is; so
  both output dimensions are exact multiples of the block size.
\<close>

theorem getPixelatedData_geometry:
  assumes "originalImage e = Some img" and "0 < width img" and "0 < height img"
    and "4 \<le> pixelSize e" and "pixelSize e \<le> 64" and "0 < maxW" and "0 < maxH"
  shows "\<exists>scale scaledW scaledH gridW gridH.
           scale = min (min (binary64 (maxW / real (width img)))
                            (binary64 (maxH / real (height img)))) 1
         \<and> scaledW = \<lfloor>binary64 (real (width img) * scale)\<rfloor>
         \<and> scaledH = \<lfloor>binary64 (real (height img) * scale)\<rfloor>
         \<and> gridW = \<lceil>binary64 (real_of_int scaledW / real_of_int (pixelSize e))\<rceil>
         \<and> gridH = \<lceil>binary64 (real_of_int scaledH / real_of_int (pixelSize e))\<rceil>
         \<and> outputWidth (snd (getPixelatedData maxW maxH e)) = gridW * pixelSize e
         \<and> outputHeight (snd (getPixelatedData maxW maxH e)) = gridH * pixelSize e
         \<and> pixelSize (snd (getPixelatedData maxW maxH e)) = pixelSize e
         \<and> pixelSize e dvd outputWidth (snd (getPixelatedData maxW maxH e))
         \<and> pixelSize e dvd outputHeight (snd (getPixelatedData maxW maxH e))"
  using assms by (simp add: getPixelatedData_def Let_def)

theorem getPixelatedData_geometry_witness:
  "originalImage wideEngine = Some \<lparr>width = 1552, height = 97, src = ''wide.png''\<rparr>
   \<and> pixelSize wideEngine = 8
   \<and> outputWidth (snd (getPixelatedData 400 400 wideEngine)) = 400
   \<and> outputHeight (snd (getPixelatedData 400 400 wideEngine)) = 24
   \<and> pixelSize wideEngine dvd outputWidth (snd (getPixelatedData 400 400 wideEngine))
   \<and> pixelSize wideEngine dvd outputHeight (snd (getPixelatedData 400 400 wideEngine))"
proof -
  have h: "originalImage wideEngine = Some \<lparr>width = 1552, height = 97, src = ''wide.png''\<rparr>"
    "0 < width \<lparr>width = 1552, height = 97, src = ''wide.png''\<rparr>"
    "0 < height \<lparr>width = 1552, height = 97, src = ''wide.png''\<rparr>"
    "4 \<le> pixelSize wideEngine" "pixelSize wideEngine \<le> 64" "0 < (400::real)" "0 < (400::real)"
    by (simp_all add: wideEngine_def)
  from getPixelatedData_geometry [OF h] show ?thesis
    using h(1) wide_output by (auto simp: wideEngine_def)
qed

text \<open>
  C5. While no image is loaded, \<^verbatim>\<open>getPixelatedData\<close> and \<^verbatim>\<open>getPixelGrid\<close> return
  \<^verbatim>\<open>null\<close>, \<^verbatim>\<open>renderToCanvas\<close> leaves the target canvas as it is, and the engine is
  unchanged by each call (\<^verbatim>\<open>getPixelGrid\<close> writes no field at all). Each call returns
  at its guard, before any statement that could raise.
\<close>

theorem no_image_noop:
  assumes "originalImage e = None"
  shows "getPixelatedData maxW maxH e = (None, e)
       \<and> renderToCanvas target maxW maxH e = (target, e)
       \<and> getPixelGrid drawImage e = None"
  using assms by (simp add: getPixelatedData_def renderToCanvas_def getPixelGrid_def)

theorem no_image_noop_witness:
  "originalImage emptyEngine = None
   \<and> getPixelatedData 400 400 emptyEngine = (None, emptyEngine)
   \<and> renderToCanvas \<lparr>cwidth = 300, cheight = 150\<rparr> 400 400 emptyEngine
       = (\<lparr>cwidth = 300, cheight = 150\<rparr>, emptyEngine)
   \<and> getPixelGrid redThenBlue emptyEngine = None"
  using no_image_noop [of emptyEngine 400 400 "\<lparr>cwidth = 300, cheight = 150\<rparr>" redThenBlue]
  by (simp add: emptyEngine_def)

section \<open>Properties of the sparkle positions\<close>

lemma seededRandom_bounds: "0 \<le> seededRandom s \<and> seededRandom s < 1"
  unfolding seededRandom_def Let_def by linarith

lemma floor_scaled_bounds:
  fixes u :: real and n :: int
  assumes "0 \<le> u" and "u < 1" and "0 < n"
  shows "0 \<le> \<lfloor>u * of_int n\<rfloor> \<and> \<lfloor>u * of_int n\<rfloor> < n"
proof -
  have "0 \<le> u * of_int n" using assms by simp
  moreover have "u * of_int n < of_int n" using assms by simp
  ultimately show ?thesis by (simp add: floor_less_iff)
qed

text \<open>
  C9. For every candidate index \<open>i\<close> and any two times \<open>t1\<close>, \<open>t2\<close> with
  \<open>floor(t1 * 3) = floor(t2 * 3)\<close>, the sparkle effect derives the same grid position for
  candidate \<open>i\<close> at both times: the position depends on the time only through the seed
  \<open>i * 1000 + floor(time * 3)\<close>.
\<close>

theorem sparkle_position_stable:
  assumes "\<lfloor>t1 * 3\<rfloor> = \<lfloor>t2 * 3\<rfloor>"
  shows "sparklePosition gs i t1 = sparklePosition gs i t2"
  using assms by (simp add: sparklePosition_def)

theorem sparkle_position_stable_witness:
  "\<lfloor>(1 / 10 :: real) * 3\<rfloor> = \<lfloor>(3 / 10 :: real) * 3\<rfloor>
   \<and> sparklePosition \<lparr>sz_width = 8, sz_height = 8\<rparr> 3 (1 / 10)
     = sparklePosition \<lparr>sz_width = 8, sz_height = 8\<rparr> 3 (3 / 10)"
  using sparkle_position_stable [of "1 / 10" "3 / 10" "\<lparr>sz_width = 8, sz_height = 8\<rparr>" 3]
  by simp

text \<open>
  C10. For every integer seed, \<^verbatim>\<open>seededRandom(seed)\<close> lies in \<open>[0, 1)\<close>; so for a grid
  size with positive width and height the position of every sparkle candidate satisfies
  \<open>0 \<le> x < gridWidth\<close> and \<open>0 \<le> y < gridHeight\<close>, and in a grid of that size the lookup
  \<^verbatim>\<open>pixelGrid[y]?.[x]\<close> finds a cell.
\<close>

theorem sparkle_lookup_in_bounds:
  "0 \<le> seededRandom (of_int seed) \<and> seededRandom (of_int seed) < 1
   \<and> (0 < sz_width gs \<and> 0 < sz_height gs \<longrightarrow>
        0 \<le> fst (sparklePosition gs i t) \<and> fst (sparklePosition gs i t) < sz_width gs
      \<and> 0 \<le> snd (sparklePosition gs i t) \<and> snd (sparklePosition gs i t) < sz_height gs
      \<and> (length gr = nat (sz_height gs) \<and> (\<forall>row \<in> set gr. length row = nat (sz_width gs))
           \<longrightarrow> (\<exists>p. cellAt gr (snd (sparklePosition gs i t)) (fst (sparklePosition gs i t))
                       = Some p)))"
proof (intro conjI impI)
  show "0 \<le> seededRandom (of_int seed)" "seededRandom (of_int seed) < 1"
    using seededRandom_bounds by simp_all
next
  let ?x = "fst (sparklePosition gs i t)" and ?y = "snd (sparklePosition gs i t)"
  assume pos: "0 < sz_width gs \<and> 0 < sz_height gs"
  have x: "0 \<le> ?x \<and> ?x < sz_width gs"
    using floor_scaled_bounds [of _ "sz_width gs"] pos seededRandom_bounds
    by (simp add: sparklePosition_def Let_def)
  have y: "0 \<le> ?y \<and> ?y < sz_height gs"
    using floor_scaled_bounds [of _ "sz_height gs"] pos seededRandom_bounds
    by (simp add: sparklePosition_def Let_def)
  show "0 \<le> ?x" "?x < sz_width gs" "0 \<le> ?y" "?y < sz_height gs" using x y by simp_all
  assume dims: "length gr = nat (sz_height gs) \<and> (\<forall>row \<in> set gr. length row = nat (sz_width gs))"
  have "nat ?y < length gr" using y dims by simp
  then have "gr ! nat ?y \<in> set gr" by simp
  then have "length (gr ! nat ?y) = nat (sz_width gs)" using dims by blast
  then show "\<exists>p. cellAt gr ?y ?x = Some p"
    using x y dims by (simp add: cellAt_def Let_def)
qed

theorem sparkle_lookup_in_bounds_witness:
  "0 \<le> seededRandom (of_int 3001) \<and> seededRandom (of_int 3001) < 1
   \<and> 0 < sz_width \<lparr>sz_width = 2, sz_height = 1\<rparr>
   \<and> 0 < sz_height \<lparr>sz_width = 2, sz_height = 1\<rparr>
   \<and> length [[opaqueRed, faintBlue]] = nat (sz_height \<lparr>sz_width = 2, sz_height = 1\<rparr>)
   \<and> list_all (\<lambda>row. length row = nat (sz_width \<lparr>sz_width = 2, sz_height = 1\<rparr>))
        [[opaqueRed, faintBlue]]
   \<and> fst (sparklePosition \<lparr>sz_width = 2, sz_height = 1\<rparr> 3 (1 / 2)) < 2
   \<and> snd (sparklePosition \<lparr>sz_width = 2, sz_height = 1\<rparr> 3 (1 / 2)) = 0
   \<and> (\<exists>p. cellAt [[opaqueRed, faintBlue]]
              (snd (sparklePosition \<lparr>sz_width = 2, sz_height = 1\<rparr> 3 (1 / 2)))
              (fst (sparklePosition \<lparr>sz_width = 2, sz_height = 1\<rparr> 3 (1 / 2))) = Some p)"
  using sparkle_lookup_in_bounds [of 3001 "\<lparr>sz_width = 2, sz_height = 1\<rparr>" 3 "1 / 2"
          "[[opaqueRed, faintBlue]]"]
  by simp

section \<open>Properties of the effect renderer\<close>

text \<open>
  Each loop body draws nothing for a cell below the threshold; the commands of a frame
  come from the loop bodies.
\<close>

lemma forGrid_mem:
  assumes "c \<in> set (forGrid gs body)"
  shows "\<exists>y x. c \<in> set (body y x)"
  using assms unfolding forGrid_def by auto

lemma staticCell_skip:
  "cellAt gr y x = Some p \<Longrightarrow> px_a p < 10 \<Longrightarrow> c \<in> set (staticCell gr ps y' x')
     \<Longrightarrow> cell c \<noteq> Some (x, y)"
  by (auto simp: staticCell_def split: option.splits if_splits)

lemma glitchCell_skip:
  "cellAt gr y x = Some p \<Longrightarrow> px_a p < 10 \<Longrightarrow> c \<in> set (glitchCell gr ps i t off y' x')
     \<Longrightarrow> cell c \<noteq> Some (x, y)"
  by (auto simp: glitchCell_def Let_def split: option.splits if_splits)

lemma floatShadowCell_skip:
  "cellAt gr y x = Some p \<Longrightarrow> px_a p < 10 \<Longrightarrow> c \<in> set (floatShadowCell gr ps fx fy y' x')
     \<Longrightarrow> cell c \<noteq> Some (x, y)"
  by (auto simp: floatShadowCell_def split: option.splits if_splits)

lemma floatCell_skip:
  "cellAt gr y x = Some p \<Longrightarrow> px_a p < 10 \<Longrightarrow> c \<in> set (floatCell gr ps i t fx fy y' x')
     \<Longrightarrow> cell c \<noteq> Some (x, y)"
  by (auto simp: floatCell_def Let_def split: option.splits if_splits)

lemma waveCell_skip:
  "cellAt gr y x = Some p \<Longrightarrow> px_a p < 10 \<Longrightarrow> c \<in> set (waveCell gr ps i t y' x')
     \<Longrightarrow> cell c \<noteq> Some (x, y)"
  by (auto simp: waveCell_def Let_def split: option.splits if_splits)

lemma rainbowCell_skip:
  "cellAt gr y x = Some p \<Longrightarrow> px_a p < 10 \<Longrightarrow> c \<in> set (rainbowCell gr ps i t y' x')
     \<Longrightarrow> cell c \<noteq> Some (x, y)"
  by (auto simp: rainbowCell_def Let_def split: option.splits if_splits)

lemma sparkle_skip:
  "cellAt gr y x = Some p \<Longrightarrow> px_a p < 10 \<Longrightarrow> c \<in> set (sparkle gr ps gs t i)
     \<Longrightarrow> cell c \<noteq> Some (x, y)"
  by (auto simp: sparkle_def Let_def split: option.splits if_splits prod.splits)

lemma glitchRows_skip:
  assumes "cellAt gr y x = Some p" and "px_a p < 10"
  shows "glitchRows gr ps gs i t ls ys rnd = (cmds, rnd') \<Longrightarrow> c \<in> set cmds
           \<Longrightarrow> cell c \<noteq> Some (x, y)"
proof (induction ys arbitrary: rnd cmds)
  case Nil
  then show ?case by simp
next
  case (Cons y0 ys)
  then show ?case
    using glitchCell_skip [OF assms]
    by (auto simp: Let_def split: prod.splits if_splits)
qed

lemma renderGlitch_skip:
  assumes "cellAt gr y x = Some p" and "px_a p < 10"
    and "renderGlitch gr i t ps gs rnd = (cmds, rnd')" and "c \<in> set cmds"
  shows "cell c \<noteq> Some (x, y)"
  using assms(3,4) glitchRows_skip [OF assms(1,2)]
  by (auto simp: renderGlitch_def Let_def split: prod.splits)

lemma renderOther_skip:
  assumes "cellAt gr y x = Some p" and "px_a p < 10"
  shows "c \<in> set (renderStatic gr ps gs) \<Longrightarrow> cell c \<noteq> Some (x, y)"
    and "c \<in> set (renderFloat gr i t ps gs) \<Longrightarrow> cell c \<noteq> Some (x, y)"
    and "c \<in> set (renderSparkle gr i t ps gs) \<Longrightarrow> cell c \<noteq> Some (x, y)"
    and "c \<in> set (renderWave gr i t ps gs) \<Longrightarrow> cell c \<noteq> Some (x, y)"
    and "c \<in> set (renderRainbow gr i t ps gs) \<Longrightarrow> cell c \<noteq> Some (x, y)"
  using staticCell_skip [OF assms] floatShadowCell_skip [OF assms] floatCell_skip [OF assms]
    waveCell_skip [OF assms] rainbowCell_skip [OF assms] sparkle_skip [OF assms]
  by (auto simp: renderFloat_def renderSparkle_def renderWave_def renderRainbow_def
        renderStatic_def Let_def dest!: forGrid_mem)

text \<open>
  C6. Whatever the effect, the intensity, the time and the random draws, \<^verbatim>\<open>render\<close>
  issues no drawing command for a grid cell whose alpha is below the skip threshold,
  which the source fixes at 10 of 255 (about 4%): every loop body, the sparkle
  highlights included, leaves such a cell with \<^verbatim>\<open>continue\<close>.
\<close>

theorem alpha_skip:
  assumes "render a rnd = Inr (cmds, rnd')" and "pixelGrid a = Some gr"
    and "cellAt gr y x = Some p" and "px_a p < 10"
  shows "\<forall>c \<in> set cmds. cell c \<noteq> Some (x, y)"
proof
  fix c assume c: "c \<in> set cmds"
  note skip = assms(3,4)
  show "cell c \<noteq> Some (x, y)"
    using assms(1,2) c renderGlitch_skip [OF skip] renderOther_skip [OF skip]
    by (auto simp: render_def Let_def split: option.splits if_splits prod.splits)
qed

theorem alpha_skip_witness:
  "render (twoCellEngine ''wave'') rndLow
     = Inr ([FillRect None (Named ''#0f0f23'') 0 0 16 8,
             FillRect (Some (0, 0)) (Rgba 255 0 0 1) 0 0 8 8], rndLow)
   \<and> pixelGrid (twoCellEngine ''wave'') = Some [[opaqueRed, faintBlue]]
   \<and> cellAt [[opaqueRed, faintBlue]] 0 1 = Some faintBlue
   \<and> px_a faintBlue < 10
   \<and> list_all (\<lambda>c. cell c \<noteq> Some (1, 0))
        [FillRect None (Named ''#0f0f23'') 0 0 16 8,
         FillRect (Some (0, 0)) (Rgba 255 0 0 1) 0 0 8 8]"
proof -
  have r: "render (twoCellEngine ''wave'') rndLow
     = Inr ([FillRect None (Named ''#0f0f23'') 0 0 16 8,
             FillRect (Some (0, 0)) (Rgba 255 0 0 1) 0 0 8 8], rndLow)"
    by (simp add: render_def twoCellEngine_def loadedEngine_def getGridSize_def Let_def
          renderWave_def forGrid_def waveCell_def cellAt_def opaqueRed_def faintBlue_def
          upt_rec)
  have g: "pixelGrid (twoCellEngine ''wave'') = Some [[opaqueRed, faintBlue]]"
    by (simp add: twoCellEngine_def)
  have l: "cellAt [[opaqueRed, faintBlue]] 0 1 = Some faintBlue"
    by (simp add: cellAt_def)
  have a: "px_a faintBlue < 10" by (simp add: faintBlue_def)
  from alpha_skip [OF r g l a] show ?thesis using r g l a by (simp add: list_all_iff)
qed

lemma render_nonglitch:
  assumes "currentEffect a \<noteq> ''glitch''"
  shows "render a rnd =
     (case baseImageData a of None \<Rightarrow> Inr ([], rnd) | Some _ \<Rightarrow>
      case pixelGrid a of None \<Rightarrow> Inr ([], rnd) | Some gr \<Rightarrow>
      case pixelateEngine a of None \<Rightarrow> Inl TypeError | Some pe \<Rightarrow>
      case canvas a of None \<Rightarrow> Inl TypeError | Some cv \<Rightarrow>
        Inr (FillRect None (Named ''#0f0f23'') 0 0 (of_int (cwidth cv)) (of_int (cheight cv))
             # (if currentEffect a = ''float''
                  then renderFloat gr (intensity a) (time a) (pixelSize pe) (getGridSize pe)
                else if currentEffect a = ''sparkle''
                  then renderSparkle gr (intensity a) (time a) (pixelSize pe) (getGridSize pe)
                else if currentEffect a = ''wave''
                  then renderWave gr (intensity a) (time a) (pixelSize pe) (getGridSize pe)
                else if currentEffect a = ''rainbow''
                  then renderRainbow gr (intensity a) (time a) (pixelSize pe) (getGridSize pe)
                else renderStatic gr (pixelSize pe) (getGridSize pe)), rnd))"
  using assms by (simp add: render_def Let_def split: option.splits)

text \<open>
  C3, as the code has it. The glitch effect draws its glitch lines and its jitter from
  \<^verbatim>\<open>Math.random()\<close>: with the same grid, intensity and time, two generators give two
  different frames.
\<close>

theorem render_glitch_counterexample:
  "map_sum id fst (render (twoCellEngine ''glitch'') rndLow)
     = Inr [FillRect None (Named ''#0f0f23'') 0 0 16 8,
            FillRect (Some (0, 0)) (Rgba 255 0 0 (4 / 5)) (- 50) 0 8 8,
            FillRect (Some (0, 0)) (Rgba 0 0 0 (4 / 5)) (- 50) 0 8 8,
            FillRect (Some (0, 0)) (Rgba 255 0 0 (2 / 5)) (- 50) 0 8 8]
   \<and> map_sum id fst (render (twoCellEngine ''glitch'') rndHigh)
     = Inr [FillRect None (Named ''#0f0f23'') 0 0 16 8,
            FillRect (Some (0, 0)) (Rgba 255 0 0 (4 / 5)) 0 0 8 8,
            FillRect (Some (0, 0)) (Rgba 0 0 0 (4 / 5)) 0 0 8 8,
            FillRect (Some (0, 0)) (Rgba 255 0 0 (2 / 5)) 0 0 8 8]
   \<and> map_sum id fst (render (twoCellEngine ''glitch'') rndLow)
     \<noteq> map_sum id fst (render (twoCellEngine ''glitch'') rndHigh)"
  by (simp add: render_def twoCellEngine_def loadedEngine_def getGridSize_def Let_def
        renderGlitch_def glitchCell_def cellAt_def opaqueRed_def faintBlue_def
        rndLow_def rndHigh_def Math_random_def eval_nat_numeral upt_rec)

text \<open>
  C3, amended. For every effect other than glitch, the commands \<^verbatim>\<open>render\<close> issues are
  a function of the grid, the intensity and the time, for a fixed effect, block size,
  grid size and canvas size: two invocations that agree on these issue the same commands
  (or fail alike), whatever the random generator holds and whatever the other fields of
  the engine are.
\<close>

theorem render_deterministic:
  assumes "currentEffect a1 \<noteq> ''glitch''"
    and "currentEffect a2 = currentEffect a1"
    and "pixelGrid a2 = pixelGrid a1"
    and "intensity a2 = intensity a1"
    and "time a2 = time a1"
    and "canvas a2 = canvas a1"
    and "map_option pixelSize (pixelateEngine a2) = map_option pixelSize (pixelateEngine a1)"
    and "map_option getGridSize (pixelateEngine a2) = map_option getGridSize (pixelateEngine a1)"
    and "(baseImageData a2 = None) = (baseImageData a1 = None)"
  shows "map_sum id fst (render a1 rnd1) = map_sum id fst (render a2 rnd2)"
proof -
  have ng: "currentEffect a2 \<noteq> ''glitch''" using assms(1,2) by simp
  show ?thesis
    unfolding render_nonglitch [OF assms(1)] render_nonglitch [OF ng]
    using assms(2-9)
    by (auto split: option.splits)
qed

theorem render_deterministic_witness:
  "currentEffect (twoCellEngine ''rainbow'') \<noteq> ''glitch''
   \<and> map_sum id fst (render (twoCellEngine ''rainbow'') rndLow)
     = map_sum id fst (render ((twoCellEngine ''rainbow'')\<lparr>isRunning := True, speed := 9,
                                 frameCount := 77\<rparr>) rndHigh)"
  using render_deterministic [of "twoCellEngine ''rainbow''"
          "(twoCellEngine ''rainbow'')\<lparr>isRunning := True, speed := 9, frameCount := 77\<rparr>"
          rndLow rndHigh]
  by (simp add: twoCellEngine_def)

section \<open>Properties of the colour conversion\<close>

lemma Math_round_of_nat: "Math_round (real n) = int n"
  unfolding Math_round_def by linarith

text \<open>
  Lightness and saturation determine the largest and the smallest channel: in
  \<^verbatim>\<open>hslToRgb\<close>, \<open>q\<close> is the maximum and \<open>p\<close> the minimum.
\<close>

lemma chroma_roundtrip:
  fixes mx mn :: real
  assumes "0 \<le> mn" and "mn < mx" and "mx \<le> 1"
  defines "l \<equiv> (mx + mn) / 2"
  defines "s \<equiv> (if l > 0.5 then (mx - mn) / (2 - mx - mn) else (mx - mn) / (mx + mn))"
  defines "q \<equiv> (if l < 0.5 then l * (1 + s) else l + s - l * s)"
  shows "s \<noteq> 0" and "q = mx" and "2 * l - q = mn"
proof -
  have d: "mx - mn > 0" using assms by simp
  have den1: "mx + mn > 0" using assms by linarith
  show s0: "s \<noteq> 0"
  proof (cases "l > 0.5")
    case True
    then have "2 - mx - mn > 0" using assms(1-3) unfolding l_def by linarith
    then show ?thesis using True d unfolding s_def by simp
  next
    case False
    then show ?thesis using den1 d unfolding s_def by simp
  qed
  show q: "q = mx"
  proof (cases "l < 0.5")
    case True
    then have "s = (mx - mn) / (mx + mn)" unfolding s_def by simp
    then have "l * (1 + s) = mx" using den1 unfolding l_def by (simp add: field_simps)
    then show ?thesis using True unfolding q_def by simp
  next
    case False
    show ?thesis
    proof (cases "l > 0.5")
      case True
      then have den2: "2 - mx - mn > 0" using assms(1-3) unfolding l_def by linarith
      have "s = (mx - mn) / (2 - mx - mn)" using True unfolding s_def by simp
      then have "l + s - l * s = mx" using den2 unfolding l_def by (simp add: field_simps)
      then show ?thesis using False unfolding q_def by simp
    next
      case F2: False
      with False have l: "mx + mn = 1" unfolding l_def by simp
      then have "s = mx - mn" using F2 unfolding s_def by simp
      then have "l + s - l * s = mx" using l unfolding l_def by (simp add: field_simps)
      then show ?thesis using False unfolding q_def by simp
    qed
  qed
  show "2 * l - q = mn" using q unfolding l_def by (simp add: field_simps)
qed

text \<open>
  The three branches of the \<^verbatim>\<open>switch\<close> in \<^verbatim>\<open>rgbToHsl\<close>: the hue computed there makes
  \<^verbatim>\<open>hue2rgb\<close> return the three channels, and lies in \<open>[0, 1)\<close>.
\<close>

lemma hue_red_max:
  fixes R G B :: real
  assumes "G \<le> R" and "B \<le> R" and "min G B < R"
  defines "d \<equiv> R - min G B"
  defines "h \<equiv> ((G - B) / d + (if G < B then 6 else 0)) / 6"
  shows "hue2rgb (min G B) R (h + 1 / 3) = R"
    and "hue2rgb (min G B) R h = G"
    and "hue2rgb (min G B) R (h - 1 / 3) = B"
    and "0 \<le> h \<and> h < 1"
  using assms
  by (auto simp: hue2rgb_def Let_def min_def field_simps split: if_splits)


lemma hue_green_max:
  fixes R G B :: real
  assumes "R \<le> G" and "B \<le> G" and "min R B < G"
  defines "d \<equiv> G - min R B"
  defines "h \<equiv> ((B - R) / d + 2) / 6"
  shows "hue2rgb (min R B) G (h + 1 / 3) = R"
    and "hue2rgb (min R B) G h = G"
    and "hue2rgb (min R B) G (h - 1 / 3) = B"
    and "0 \<le> h \<and> h < 1"
  using assms
  by (auto simp: hue2rgb_def Let_def min_def field_simps split: if_splits)

lemma hue_blue_max:
  fixes R G B :: real
  assumes "R \<le> B" and "G \<le> B" and "min R G < B"
  defines "d \<equiv> B - min R G"
  defines "h \<equiv> ((R - G) / d + 4) / 6"
  shows "hue2rgb (min R G) B (h + 1 / 3) = R"
    and "hue2rgb (min R G) B h = G"
    and "hue2rgb (min R G) B (h - 1 / 3) = B"
    and "0 \<le> h \<and> h < 1"
  using assms
  by (auto simp: hue2rgb_def Let_def min_def field_simps split: if_splits)

lemma hue_fraction_cases:
  fixes r g b :: real
  defines "R \<equiv> r / 255" and "G \<equiv> g / 255" and "B \<equiv> b / 255"
  defines "mx \<equiv> max (max R G) B" and "mn \<equiv> min (min R G) B"
  assumes "mx \<noteq> mn"
  shows "hsl_h (rgbToHsl r g b) / 360 =
     (if mx = R then ((G - B) / (mx - mn) + (if G < B then 6 else 0)) / 6
      else if mx = G then ((B - R) / (mx - mn) + 2) / 6
      else ((R - G) / (mx - mn) + 4) / 6)"
  using assms(6)
  unfolding rgbToHsl_def Let_def R_def [symmetric] G_def [symmetric] B_def [symmetric]
    mx_def [symmetric] mn_def [symmetric]
  by simp

lemma hue_roundtrip:
  fixes r g b :: real
  defines "R \<equiv> r / 255" and "G \<equiv> g / 255" and "B \<equiv> b / 255"
  defines "mx \<equiv> max (max R G) B" and "mn \<equiv> min (min R G) B"
  defines "hf \<equiv> hsl_h (rgbToHsl r g b) / 360"
  assumes ne: "mx \<noteq> mn"
  shows "hue2rgb mn mx (hf + 1 / 3) = R \<and> hue2rgb mn mx hf = G
       \<and> hue2rgb mn mx (hf - 1 / 3) = B \<and> 0 \<le> hf \<and> hf < 1"
proof -
  note hc = hue_fraction_cases [of r g b, folded R_def G_def B_def, folded mx_def mn_def,
      folded hf_def, OF ne]
  consider (r) "mx = R" | (g) "mx \<noteq> R" "mx = G" | (b) "mx \<noteq> R" "mx \<noteq> G" "mx = B"
    unfolding mx_def by linarith
  then show ?thesis
  proof cases
    case r
    then have le: "G \<le> R" "B \<le> R" unfolding mx_def by linarith+
    then have mn: "mn = min G B" unfolding mn_def by linarith
    have lt: "min G B < R" using ne r mn le by linarith
    have h: "hf = ((G - B) / (R - min G B) + (if G < B then 6 else 0)) / 6"
      using hc r mn by simp
    show ?thesis unfolding h r mn using hue_red_max [OF le lt] by simp
  next
    case g
    then have le: "R \<le> G" "B \<le> G" unfolding mx_def by linarith+
    then have mn: "mn = min R B" unfolding mn_def by linarith
    have lt: "min R B < G" using ne g mn le by linarith
    have h: "hf = ((B - R) / (G - min R B) + 2) / 6"
      using hc g mn by simp
    show ?thesis unfolding h g(2) mn using hue_green_max [OF le lt] by simp
  next
    case b
    then have le: "R \<le> B" "G \<le> B" unfolding mx_def by linarith+
    then have mn: "mn = min R G" unfolding mn_def by linarith
    have lt: "min R G < B" using ne b mn le by linarith
    have h: "hf = ((R - G) / (B - min R G) + 4) / 6"
      using hc b mn by simp
    show ?thesis unfolding h b(3) mn using hue_blue_max [OF le lt] by simp
  qed
qed

lemma hsl_roundtrip_real:
  fixes r g b :: real
  assumes "0 \<le> r" "r \<le> 255" "0 \<le> g" "g \<le> 255" "0 \<le> b" "b \<le> 255"
  shows "hslToRgb (hsl_h (rgbToHsl r g b)) (hsl_s (rgbToHsl r g b)) (hsl_l (rgbToHsl r g b))
         = \<lparr>rgb_r = Math_round r, rgb_g = Math_round g, rgb_b = Math_round b\<rparr>"
proof -
  define R G B where R_G_B_def: "R = r / 255" "G = g / 255" "B = b / 255"
  define mx mn where mx_mn_def: "mx = max (max R G) B" "mn = min (min R G) B"
  have unscale: "R * 255 = r" "G * 255 = g" "B * 255 = b" unfolding R_G_B_def by simp_all
  have rng: "0 \<le> mn" "mx \<le> 1" "mn \<le> mx"
    using assms unfolding mx_mn_def R_G_B_def by auto
  have l: "hsl_l (rgbToHsl r g b) = (mx + mn) / 2"
    unfolding rgbToHsl_def Let_def mx_mn_def R_G_B_def by simp
  show ?thesis
  proof (cases "mx = mn")
    case True
    then have eq: "R = mx" "G = mx" "B = mx" unfolding mx_mn_def by linarith+
    have s: "hsl_s (rgbToHsl r g b) = 0"
      using True unfolding rgbToHsl_def Let_def mx_mn_def R_G_B_def by simp
    have "(mx + mn) / 2 * 255 = r" "(mx + mn) / 2 * 255 = g" "(mx + mn) / 2 * 255 = b"
      using True eq unscale by simp_all
    then show ?thesis unfolding hslToRgb_def Let_def s l by simp
  next
    case False
    then have lt: "mn < mx" using rng by simp
    have s: "hsl_s (rgbToHsl r g b)
         = (if (mx + mn) / 2 > 0.5 then (mx - mn) / (2 - mx - mn) else (mx - mn) / (mx + mn))"
      using False unfolding rgbToHsl_def Let_def mx_mn_def R_G_B_def by simp
    note ch = chroma_roundtrip [OF rng(1) lt rng(2), folded s]
    note hr = hue_roundtrip [of r g b, folded R_G_B_def, folded mx_mn_def, OF False]
    show ?thesis
      unfolding hslToRgb_def Let_def l
      using ch hr unscale by simp
  qed
qed

text \<open>
  C7. For every RGB triple with integer channels between 0 and 255, \<^verbatim>\<open>rgbToHsl\<close>
  followed by \<^verbatim>\<open>hslToRgb\<close>, with hue and saturation as they are, gives channels within
  1 of the original ones. (Over the reals the round trip is exact: see
  \<open>hsl_roundtrip_real\<close>.)
\<close>

theorem rgb_hsl_roundtrip:
  fixes r g b :: nat
  assumes "r \<le> 255" and "g \<le> 255" and "b \<le> 255"
  shows "\<bar>rgb_r (hslToRgb (hsl_h (rgbToHsl (real r) (real g) (real b)))
                       (hsl_s (rgbToHsl (real r) (real g) (real b)))
                       (hsl_l (rgbToHsl (real r) (real g) (real b)))) - int r\<bar> \<le> 1
       \<and> \<bar>rgb_g (hslToRgb (hsl_h (rgbToHsl (real r) (real g) (real b)))
                       (hsl_s (rgbToHsl (real r) (real g) (real b)))
                       (hsl_l (rgbToHsl (real r) (real g) (real b)))) - int g\<bar> \<le> 1
       \<and> \<bar>rgb_b (hslToRgb (hsl_h (rgbToHsl (real r) (real g) (real b)))
                       (hsl_s (rgbToHsl (real r) (real g) (real b)))
                       (hsl_l (rgbToHsl (real r) (real g) (real b)))) - int b\<bar> \<le> 1"
proof -
  have "hslToRgb (hsl_h (rgbToHsl (real r) (real g) (real b)))
                 (hsl_s (rgbToHsl (real r) (real g) (real b)))
                 (hsl_l (rgbToHsl (real r) (real g) (real b)))
        = \<lparr>rgb_r = int r, rgb_g = int g, rgb_b = int b\<rparr>"
    using hsl_roundtrip_real [of "real r" "real g" "real b"] assms
    by (simp add: Math_round_of_nat)
  then show ?thesis by simp
qed


theorem rgb_hsl_roundtrip_witness:
  "(200::nat) \<le> 255 \<and> (100::nat) \<le> 255 \<and> (50::nat) \<le> 255
   \<and> \<bar>rgb_r (hslToRgb (hsl_h (rgbToHsl 200 100 50)) (hsl_s (rgbToHsl 200 100 50))
                       (hsl_l (rgbToHsl 200 100 50))) - 200\<bar> \<le> 1
   \<and> \<bar>rgb_g (hslToRgb (hsl_h (rgbToHsl 200 100 50)) (hsl_s (rgbToHsl 200 100 50))
                       (hsl_l (rgbToHsl 200 100 50))) - 100\<bar> \<le> 1
   \<and> \<bar>rgb_b (hslToRgb (hsl_h (rgbToHsl 200 100 50)) (hsl_s (rgbToHsl 200 100 50))
                       (hsl_l (rgbToHsl 200 100 50))) - 50\<bar> \<le> 1"
  using rgb_hsl_roundtrip [of 200 100 50] by simp

lemma hue2rgb_flat: "hue2rgb p p t = p"
  by (simp add: hue2rgb_def Let_def)

lemma rgbToHsl_hue_range: "0 \<le> hsl_h (rgbToHsl r g b) \<and> hsl_h (rgbToHsl r g b) < 360"
proof (cases "max (max (r / 255) (g / 255)) (b / 255) = min (min (r / 255) (g / 255)) (b / 255)")
  case True
  then show ?thesis by (simp add: rgbToHsl_def Let_def)
next
  case False
  from hue_roundtrip [OF False] show ?thesis by simp
qed

lemma js_rem_half_turn:
  assumes "0 \<le> h" and "h < 360"
  shows "js_rem (h + 180) 360 = (if h < 180 then h + 180 else h - 180)"
proof (cases "h < 180")
  case True
  then have "\<lfloor>(h + 180) / 360\<rfloor> = 0" using assms by (simp add: floor_eq_iff)
  then show ?thesis using True assms by (simp add: js_rem_def)
next
  case False
  then have "\<lfloor>(h + 180) / 360\<rfloor> = 1" using assms by (simp add: floor_eq_iff)
  then show ?thesis using False assms by (simp add: js_rem_def)
qed

lemma white_rainbow:
  "rainbowCell gr ps 10 t y x = 
     [FillRect (Some (x, y)) (Rgba 255 255 255 1)
        (of_int (x * ps)) (of_int (y * ps)) (of_int ps) (of_int ps)]"
  if "cellAt gr y x = Some white"
  using that
  by (simp add: rainbowCell_def rainbowHsl_def rgbToHsl_def hslToRgb_def Let_def white_def
        hue2rgb_flat Math_round_def)

text \<open>
  C8. With the rainbow effect at intensity 10 and time 0, a pure white cell is drawn in
  its own colour, white (the hue shift of the cell at the origin is 0; the lightness 1
  keeps white white under any hue); and where the hue shift of a cell is 180 at
  intensity 10, the hue handed to \<^verbatim>\<open>hslToRgb\<close> is the cell's own hue moved by exactly
  180 degrees around the circle, the factor \<open>intensity / 10\<close> being 1.
\<close>

theorem rainbow_scenario:
  "(cellAt gr y x = Some white \<longrightarrow>
      rainbowCell gr ps 10 0 y x =
        [FillRect (Some (x, y)) (Rgba 255 255 255 1)
           (of_int (x * ps)) (of_int (y * ps)) (of_int ps) (of_int ps)])
   \<and> hueShift 10 0 0 0 = 0
   \<and> (hueShift 10 t y x = 180 \<longrightarrow>
        hsl_h (rainbowHsl 10 t y x pixel)
          = js_rem (hsl_h (rgbToHsl (real (px_r pixel)) (real (px_g pixel)) (real (px_b pixel)))
                    + 180) 360
      \<and> hsl_h (rainbowHsl 10 t y x pixel)
          = (if hsl_h (rgbToHsl (real (px_r pixel)) (real (px_g pixel)) (real (px_b pixel))) < 180
             then hsl_h (rgbToHsl (real (px_r pixel)) (real (px_g pixel)) (real (px_b pixel))) + 180
             else hsl_h (rgbToHsl (real (px_r pixel)) (real (px_g pixel)) (real (px_b pixel))) - 180))"
proof (intro conjI impI)
  assume "cellAt gr y x = Some white"
  then show "rainbowCell gr ps 10 0 y x =
        [FillRect (Some (x, y)) (Rgba 255 255 255 1)
           (of_int (x * ps)) (of_int (y * ps)) (of_int ps) (of_int ps)]"
    by (rule white_rainbow)
next
  show "hueShift 10 0 0 0 = 0" by (simp add: hueShift_def js_rem_def)
next
  assume hs: "hueShift 10 t y x = 180"
  then show a: "hsl_h (rainbowHsl 10 t y x pixel)
          = js_rem (hsl_h (rgbToHsl (real (px_r pixel)) (real (px_g pixel)) (real (px_b pixel)))
                    + 180) 360"
    by (simp add: rainbowHsl_def Let_def)
  show "hsl_h (rainbowHsl 10 t y x pixel)
          = (if hsl_h (rgbToHsl (real (px_r pixel)) (real (px_g pixel)) (real (px_b pixel))) < 180
             then hsl_h (rgbToHsl (real (px_r pixel)) (real (px_g pixel)) (real (px_b pixel))) + 180
             else hsl_h (rgbToHsl (real (px_r pixel)) (real (px_g pixel)) (real (px_b pixel))) - 180)"
    unfolding a using js_rem_half_turn rgbToHsl_hue_range by blast
qed

theorem rainbow_scenario_witness:
  "cellAt [[white]] 0 0 = Some white
   \<and> render whiteCellEngine rndLow
       = Inr ([FillRect None (Named ''#0f0f23'') 0 0 8 8,
               FillRect (Some (0, 0)) (Rgba 255 255 255 1) 0 0 8 8], rndLow)
   \<and> hueShift 10 (9 / 5) 0 0 = 180
   \<and> hsl_h (rgbToHsl 255 0 0) = 0
   \<and> hsl_h (rainbowHsl 10 (9 / 5) 0 0 opaqueRed) = 180"
proof -
  have c: "cellAt [[white]] 0 0 = Some white" by (simp add: cellAt_def)
  have h: "hueShift 10 (9 / 5) 0 0 = 180" by (simp add: hueShift_def js_rem_def)
  have z: "hsl_h (rgbToHsl 255 0 0) = 0" by (simp add: rgbToHsl_def Let_def)
  have r: "render whiteCellEngine rndLow
       = Inr ([FillRect None (Named ''#0f0f23'') 0 0 8 8] @ rainbowCell [[white]] 8 10 0 0 0, rndLow)"
    by (simp add: render_def whiteCellEngine_def loadedEngine_def getGridSize_def Let_def
          renderRainbow_def forGrid_def upt_rec)
  from rainbow_scenario [where gr = "[[white]]" and y = 0 and x = 0 and ps = 8 and t = "9 / 5"
      and pixel = opaqueRed]
  show ?thesis using c h z r by (simp add: opaqueRed_def)
qed

section \<open>Properties of the capture loop\<close>

text \<open>
  The test \<^verbatim>\<open>frameCounter % captureInterval === 0\<close> on integers is divisibility.
\<close>

lemma js_rem_zero_iff:
  fixes a b :: int
  assumes "b \<noteq> 0"
  shows "js_rem (of_int a) (of_int b) = 0 \<longleftrightarrow> b dvd a"
proof
  assume z: "js_rem (real_of_int a) (real_of_int b) = 0"
  define q :: int where
    "q = (if real_of_int a / real_of_int b < 0 then \<lceil>real_of_int a / real_of_int b\<rceil>
          else \<lfloor>real_of_int a / real_of_int b\<rfloor>)"
  from z have "real_of_int a = real_of_int b * real_of_int q"
    unfolding js_rem_def q_def by simp
  then have "real_of_int a = real_of_int (b * q)" by simp
  then have "a = b * q" by linarith
  then show "b dvd a" by simp
next
  assume "b dvd a"
  then obtain q where a: "a = b * q" by (auto simp: dvd_def)
  have d: "real_of_int a / real_of_int b = real_of_int q" using assms a by simp
  show "js_rem (real_of_int a) (real_of_int b) = 0"
    unfolding js_rem_def d using a by simp
qed

text \<open>Rendering on an initialised engine does not fail.\<close>

lemma render_ok:
  assumes "renderable a"
  shows "\<exists>cmds rnd'. render a rnd = Inr (cmds, rnd')"
  using assms
  by (auto simp: renderable_def render_def Let_def split: option.splits prod.splits)

lemma renderFrame_ok:
  assumes "renderable (ae w)"
  shows "\<exists>cmds rnd'. renderFrame w = Inr (w\<lparr>surface := surface w @ cmds, mathRandom := rnd'\<rparr>)"
proof -
  from render_ok [OF assms] obtain cmds rnd'
    where "render (ae w) (mathRandom w) = Inr (cmds, rnd')" by blast
  then have "renderFrame w = Inr (w\<lparr>surface := surface w @ cmds, mathRandom := rnd'\<rparr>)"
    by (simp add: renderFrame_def)
  then show ?thesis by blast
qed

text \<open>
  One call of the loop while frames are missing: it renders one tick, advances the clock
  by one step, captures a frame when the interval divides the tick number, and
  schedules itself again.
\<close>

lemma capture_call:
  assumes inv: "capturing N k w" and q: "rafQueue w = []" and more: "int k < N"
    and c: "captureInterval cl \<noteq> 0"
  shows "\<exists>w'. captureLoop cl w = Inr w'
     \<and> capturing N (if captureInterval cl dvd frameCounter cl + 1 then k + 1 else k) w'
     \<and> rafQueue w' = [(lastHandle w + 1, CaptureLoop (cl\<lparr>frameCounter := frameCounter cl + 1\<rparr>))]
     \<and> time (ae w') = time (ae w) + 0.016 * (speed (ae w) / 5)
     \<and> speed (ae w') = speed (ae w)
     \<and> onProgress (ge w') = onProgress (ge w)"
proof -
  from inv obtain enc where e: "gif (ge w) = Some enc" "length (frames enc) = k"
    and g: "isExporting (ge w)" "framesCaptured (ge w) = int k" "totalFrames (ge w) = N"
    and a: "renderable (ae w)" "\<not> isRunning (ae w)"
    and t: "onProgress (ge w) \<and> 0 < k \<longrightarrow>
          (\<exists>pre. trace w = pre @ [Progress \<lfloor>real k / real_of_int N * 50\<rfloor>
                                     (Capturing (int k) N)])"
    unfolding capturing_def by blast
  define w0 where "w0 = w\<lparr>ae := (ae w)\<lparr>time := time (ae w) + 0.016 * (speed (ae w) / 5)\<rparr>\<rparr>"
  have "renderable (ae w0)" using a by (simp add: w0_def renderable_def)
  from renderFrame_ok [OF this] obtain cmds rnd'
    where r: "renderFrame w0 = Inr (w0\<lparr>surface := surface w0 @ cmds, mathRandom := rnd'\<rparr>)"
    by blast
  show ?thesis
  proof (cases "captureInterval cl dvd frameCounter cl + 1")
    case True
    then show ?thesis
      using q e g a more r t js_rem_zero_iff [OF c, of "frameCounter cl + 1"]
      by (simp add: captureLoop_def w0_def Let_def addFrame_def
          requestAnimationFrame_def capturing_def renderable_def add.commute)
  next
    case False
    then show ?thesis
      using q e g a more r t js_rem_zero_iff [OF c, of "frameCounter cl + 1"]
      by (simp add: captureLoop_def w0_def Let_def
          requestAnimationFrame_def capturing_def renderable_def)
  qed
qed

lemma capturing_queue_irrelevant:
  "capturing N k (w\<lparr>rafQueue := q\<rparr>) = capturing N k w"
  by (simp add: capturing_def)

lemma capture_tick:
  assumes inv: "capturing N k w" and q: "rafQueue w = [(h, CaptureLoop cl)]"
    and more: "int k < N" and c: "captureInterval cl \<noteq> 0"
  shows "\<exists>w' h'. step AnimationFrame w = Inr w'
     \<and> capturing N (if captureInterval cl dvd frameCounter cl + 1 then k + 1 else k) w'
     \<and> rafQueue w' = [(h', CaptureLoop (cl\<lparr>frameCounter := frameCounter cl + 1\<rparr>))]
     \<and> time (ae w') = time (ae w) + 0.016 * (speed (ae w) / 5)
     \<and> speed (ae w') = speed (ae w)
     \<and> onProgress (ge w') = onProgress (ge w)"
proof -
  have "capturing N k (w\<lparr>rafQueue := []\<rparr>)" "rafQueue (w\<lparr>rafQueue := []\<rparr>) = []"
    using inv by (simp_all add: capturing_queue_irrelevant)
  from capture_call [OF this more c] show ?thesis
    using q by (auto simp: step_def runCallback_def)
qed


text \<open>After \<open>m\<close> rendered ticks, \<open>m div c\<close> frames are captured.\<close>

lemma div_step:
  fixes m c :: int
  assumes "0 \<le> m" and "0 < c"
  shows "nat ((m + 1) div c) = (if c dvd m + 1 then nat (m div c) + 1 else nat (m div c))"
proof (cases "c dvd m + 1")
  case True
  then obtain q where q: "m + 1 = c * q" by (auto simp: dvd_def)
  have m: "m = c * (q - 1) + (c - 1)" using q by (simp add: algebra_simps)
  have "m div c = q - 1"
    by (rule int_div_pos_eq [of m c "q - 1" "c - 1"]) (use m assms in simp_all)
  moreover have "(m + 1) div c = q" using q assms by simp
  moreover have "0 \<le> m div c" using assms by (simp add: pos_imp_zdiv_nonneg_iff)
  ultimately show ?thesis using True by simp
next
  case False
  define r where "r = m mod c"
  have r: "0 \<le> r" "r < c" using assms unfolding r_def by simp_all
  have m: "m = c * (m div c) + r" unfolding r_def by simp
  have "r + 1 \<noteq> c"
  proof
    assume "r + 1 = c"
    then have "m + 1 = c * (m div c + 1)" using m by (simp add: algebra_simps)
    then have "c dvd m + 1" by (metis dvd_triv_left)
    then show False using False by simp
  qed
  then have r1: "r + 1 < c" using r by simp
  have "(m + 1) div c = m div c"
    by (rule int_div_pos_eq [of "m + 1" c "m div c" "r + 1"]) (use m r r1 in simp_all)
  then show ?thesis using False by simp
qed


lemma int_div_less:
  fixes m c N :: int
  assumes "0 < c" and "m < N * c"
  shows "m div c < N"
proof -
  have "c * (m div c) + m mod c = m" by simp
  moreover have "0 \<le> m mod c" using assms(1) by simp
  ultimately have "c * (m div c) \<le> m" by linarith
  then have "c * (m div c) < c * N" using assms(2) by (simp add: mult.commute)
  then show ?thesis using assms(1) by (simp add: mult_less_cancel_left_pos)
qed

lemma capture_run:
  assumes c: "0 < c"
  shows "capturing N (nat (m div c)) w
     \<Longrightarrow> rafQueue w = [(h, CaptureLoop \<lparr>wasRunning = wr, captureInterval = c, frameCounter = m\<rparr>)]
     \<Longrightarrow> 0 \<le> m \<Longrightarrow> m + int j \<le> N * c
     \<Longrightarrow> \<exists>w' h'. run (replicate j AnimationFrame) w = Inr w'
           \<and> capturing N (nat ((m + int j) div c)) w'
           \<and> rafQueue w' = [(h', CaptureLoop \<lparr>wasRunning = wr, captureInterval = c,
                                              frameCounter = m + int j\<rparr>)]
           \<and> time (ae w') = time (ae w) + real j * (0.016 * (speed (ae w) / 5))
           \<and> speed (ae w') = speed (ae w)
           \<and> onProgress (ge w') = onProgress (ge w)"
proof (induction j arbitrary: w h m)
  case 0
  then show ?case by simp
next
  case (Suc j)
  let ?cl = "\<lparr>wasRunning = wr, captureInterval = c, frameCounter = m\<rparr>"
  have "m < N * c" using Suc.prems(4) by simp
  then have "m div c < N" using c by (simp add: int_div_less)
  then have more: "int (nat (m div c)) < N" using Suc.prems(3) c
    by (simp add: pos_imp_zdiv_nonneg_iff)
  have c0: "captureInterval ?cl \<noteq> 0" using c by simp
  from capture_tick [OF Suc.prems(1) Suc.prems(2) more c0]
  obtain w1 h1 where s: "step AnimationFrame w = Inr w1"
    and i1: "capturing N (nat ((m + 1) div c)) w1"
    and q1: "rafQueue w1 = [(h1, CaptureLoop \<lparr>wasRunning = wr, captureInterval = c,
                                             frameCounter = m + 1\<rparr>)]"
    and t1: "time (ae w1) = time (ae w) + 0.016 * (speed (ae w) / 5)"
    and s1: "speed (ae w1) = speed (ae w)"
    and p1: "onProgress (ge w1) = onProgress (ge w)"
    using div_step [OF Suc.prems(3) c] by auto
  have "0 \<le> m + 1" "m + 1 + int j \<le> N * c" using Suc.prems(3,4) by simp_all
  from Suc.IH [OF i1 q1 this]
  obtain w' h' where r: "run (replicate j AnimationFrame) w1 = Inr w'"
    and i': "capturing N (nat ((m + 1 + int j) div c)) w'"
    and q': "rafQueue w' = [(h', CaptureLoop \<lparr>wasRunning = wr, captureInterval = c,
                                             frameCounter = m + 1 + int j\<rparr>)]"
    and t': "time (ae w') = time (ae w1) + real j * (0.016 * (speed (ae w1) / 5))"
    and s': "speed (ae w') = speed (ae w1)"
    and p': "onProgress (ge w') = onProgress (ge w1)"
    by blast
  have e: "m + int (Suc j) = m + 1 + int j" by simp
  have r': "run (replicate (Suc j) AnimationFrame) w = Inr w'" using s r by simp
  have t'': "time (ae w') = time (ae w) + real (Suc j) * (0.016 * (speed (ae w) / 5))"
    using t' t1 s1 by (simp add: algebra_simps)
  have s'': "speed (ae w') = speed (ae w)" using s' s1 by simp
  have p'': "onProgress (ge w') = onProgress (ge w)" using p' p1 by simp
  show ?case unfolding e using r' i' q' t'' s'' p'' by blast
qed


text \<open>Restarting the live animation on an initialised, stopped engine.\<close>

lemma prepare_ok:
  assumes "renderable a"
  shows "\<exists>a'. prepare d a = Inr a' \<and> renderable a' \<and> speed a' = speed a
           \<and> isRunning a' = isRunning a \<and> onFrameCapture a' = onFrameCapture a"
  using assms
  by (auto simp: prepare_def renderable_def Let_def split: option.splits prod.splits)

lemma start_ok:
  assumes "renderable (ae w)" and "\<not> isRunning (ae w)"
  shows "\<exists>w'. start w = Inr w' \<and> isRunning (ae w')
     \<and> time (ae w') = 0.016 * (speed (ae w) / 5)
     \<and> speed (ae w') = speed (ae w)
     \<and> ge w' = ge w
     \<and> rafQueue w' = rafQueue w @ [(lastHandle w + 1, Animate)]
     \<and> trace w' = trace w @ (if onFrameCapture (ae w) then [FrameCapture 1] else [])"
proof -
  from prepare_ok [OF assms(1)] obtain a1
    where p: "prepare (browserDrawImage w) (ae w) = Inr a1" and r1: "renderable a1"
      and s1: "speed a1 = speed (ae w)" and f1: "onFrameCapture a1 = onFrameCapture (ae w)"
    by blast
  define w1 where "w1 = w\<lparr>ae := a1\<lparr>isRunning := True, time := 0, frameCount := 0\<rparr>\<rparr>"
  have "renderable (ae w1)" using r1 by (simp add: w1_def renderable_def)
  from renderFrame_ok [OF this] obtain cmds rnd'
    where r: "renderFrame w1 = Inr (w1\<lparr>surface := surface w1 @ cmds, mathRandom := rnd'\<rparr>)"
    by blast
  show ?thesis
    using assms(2) p r s1 f1
    by (simp add: start_def animate_def w1_def Let_def requestAnimationFrame_def)
qed

text \<open>
  The call of the loop that finds all frames captured: it reports the progress 50, starts
  the encoder and restores the running state.
\<close>

lemma capture_done:
  assumes inv: "capturing N k w" and q: "rafQueue w = [(h, CaptureLoop cl)]"
    and full: "int k = N" and pos: "0 < N"
  shows "\<exists>w' post. step AnimationFrame w = Inr w'
     \<and> gif (ge w') = gif (ge w)
     \<and> isRunning (ae w') = wasRunning cl
     \<and> rafQueue w' = (if wasRunning cl then [(lastHandle w + 1, Animate)] else [])
     \<and> trace w' = trace w @ (if onProgress (ge w) then [Progress 50 Encoding] else [])
                     @ [GifRender] @ post
     \<and> (onProgress (ge w) \<longrightarrow>
          (\<exists>pre. trace w' = pre @ [Progress 50 (Capturing N N), Progress 50 Encoding, GifRender]
                            @ post))"
proof -
  from inv obtain enc where e: "gif (ge w) = Some enc" "length (frames enc) = k"
    and g: "isExporting (ge w)" "framesCaptured (ge w) = int k" "totalFrames (ge w) = N"
    and a: "renderable (ae w)" "\<not> isRunning (ae w)"
    and t: "onProgress (ge w) \<and> 0 < k \<longrightarrow>
          (\<exists>pre. trace w = pre @ [Progress \<lfloor>real k / real_of_int N * 50\<rfloor>
                                     (Capturing (int k) N)])"
    unfolding capturing_def by blast
  have k: "0 < k" using full pos by simp
  have "real_of_int N = real k" using full by (metis of_int_of_nat_eq)
  then have fifty: "\<lfloor>real k / real_of_int N * 50\<rfloor> = 50" using k by simp
  define w2 where "w2 = (let w1 = (if onProgress (ge w)
                             then w\<lparr>rafQueue := [], trace := trace w @ [Progress 50 Encoding]\<rparr>
                             else w\<lparr>rafQueue := []\<rparr>)
                         in w1\<lparr>trace := trace w1 @ [GifRender]\<rparr>)"
  have c: "captureLoop cl (w\<lparr>rafQueue := []\<rparr>) = (if wasRunning cl then start w2 else Inr w2)"
    using e g full by (simp add: captureLoop_def w2_def Let_def)
  have tr: "trace w2 = trace w @ (if onProgress (ge w) then [Progress 50 Encoding] else [])
                @ [GifRender]"
    by (simp add: w2_def Let_def)
  have tp: "onProgress (ge w) \<longrightarrow>
       (\<exists>pre. trace w2 = pre @ [Progress 50 (Capturing N N), Progress 50 Encoding, GifRender])"
    using t k fifty full by (auto simp: w2_def Let_def)
  show ?thesis
  proof (cases "wasRunning cl")
    case False
    then have "step AnimationFrame w = Inr w2" using q c by (simp add: step_def runCallback_def)
    moreover have "gif (ge w2) = gif (ge w)" "isRunning (ae w2) = wasRunning cl" "rafQueue w2 = []"
      using False a by (simp_all add: w2_def Let_def)
    ultimately show ?thesis using tr tp False by (intro exI [of _ w2] exI [of _ "[]"]) simp
  next
    case True
    have "renderable (ae w2)" "\<not> isRunning (ae w2)" using a by (simp_all add: w2_def Let_def)
    from start_ok [OF this] obtain w' where s: "start w2 = Inr w'" and r: "isRunning (ae w')"
      and gg: "ge w' = ge w2"
      and qq: "rafQueue w' = rafQueue w2 @ [(lastHandle w2 + 1, Animate)]"
      and tt: "trace w' = trace w2 @ (if onFrameCapture (ae w2) then [FrameCapture 1] else [])"
      by blast
    have "step AnimationFrame w = Inr w'" using q c s True by (simp add: step_def runCallback_def)
    moreover have "gif (ge w') = gif (ge w)" using gg by (simp add: w2_def Let_def)
    moreover have "rafQueue w' = [(lastHandle w + 1, Animate)]" using qq by (simp add: w2_def Let_def)
    ultimately show ?thesis using tr tp True r tt
      by (intro exI [of _ w'] exI [of _ "if onFrameCapture (ae w2) then [FrameCapture 1] else []"])
         auto
  qed
qed


text \<open>
  \<^verbatim>\<open>startExport\<close>: after \<^verbatim>\<open>init\<close>, \<^verbatim>\<open>stop\<close> and \<^verbatim>\<open>reset\<close> the first call of the loop
  runs at once, inside \<^verbatim>\<open>startExport\<close>.
\<close>

lemma stop_props:
  "ge (stop w) = ge w" "trace (stop w) = trace w" "\<not> isRunning (ae (stop w))"
  "renderable (ae (stop w)) = renderable (ae w)" "speed (ae (stop w)) = speed (ae w)"
  by (simp_all add: stop_def cancelAnimationFrame_def renderable_def Let_def split: option.splits)

lemma stop_queue:
  assumes "\<forall>e \<in> set (rafQueue w). animationId (ae w) = Some (fst e) \<and> fst e \<noteq> 0"
  shows "rafQueue (stop w) = []"
proof (cases "animationId (ae w)")
  case None
  then have "rafQueue w = []" using assms by (cases "rafQueue w") auto
  then show ?thesis using None by (simp add: stop_def Let_def)
next
  case (Some i)
  show ?thesis
  proof (cases "i = 0")
    case True
    then have "rafQueue w = []" using assms Some by (cases "rafQueue w") auto
    then show ?thesis using Some True by (simp add: stop_def Let_def)
  next
    case False
    have "filter (\<lambda>(h, cb). h \<noteq> i) (rafQueue w) = []"
      using assms Some by (auto simp: filter_empty_conv)
    then show ?thesis using Some False
      by (simp add: stop_def Let_def cancelAnimationFrame_def)
  qed
qed

lemma start_export:
  assumes gd: "GIF_defined w" and r: "renderable (ae w)"
    and q: "\<forall>e \<in> set (rafQueue w). animationId (ae w) = Some (fst e) \<and> fst e \<noteq> 0"
    and N: "0 < optOrElse (opt_frames options) 30"
    and c: "0 < optOrElse (opt_captureInterval options) 2"
  shows "\<exists>w1 h. startExport options w = Inr w1
     \<and> capturing (optOrElse (opt_frames options) 30)
          (nat (1 div optOrElse (opt_captureInterval options) 2)) w1
     \<and> rafQueue w1 = [(h, CaptureLoop \<lparr>wasRunning = isRunning (ae w),
                         captureInterval = optOrElse (opt_captureInterval options) 2,
                         frameCounter = 1\<rparr>)]
     \<and> time (ae w1) = 0.016 * (speed (ae w) / 5)
     \<and> speed (ae w1) = speed (ae w)
     \<and> onProgress (ge w1) = onProgress (ge w)"
proof -
  let ?N = "optOrElse (opt_frames options) 30"
  let ?c = "optOrElse (opt_captureInterval options) 2"
  let ?cl = "\<lparr>wasRunning = isRunning (ae w), captureInterval = ?c, frameCounter = 0\<rparr>"
  from r obtain cv where cv: "canvas (ae w) = Some cv" by (auto simp: renderable_def)
  define w2 where "w2 = w\<lparr>ge := (ge w)\<lparr>totalFrames := ?N,
       frameDelay := optOrElse (opt_delay options) 50,
       gif := Some \<lparr>frames = [], quality = optOrElse (opt_quality options) 10,
                    gwidth = cwidth cv, gheight = cheight cv\<rparr>,
       isExporting := True, framesCaptured := 0\<rparr>\<rparr>"
  define w4 where "w4 = (stop w2)\<lparr>ae := reset (ae (stop w2))\<rparr>"
  have se: "startExport options w = captureLoop ?cl w4"
    using gd cv by (simp add: startExport_def GifExporter_init_def Let_def w2_def w4_def)
  have q2: "\<forall>e \<in> set (rafQueue w2). animationId (ae w2) = Some (fst e) \<and> fst e \<noteq> 0"
    using q by (simp add: w2_def)
  have q4: "rafQueue w4 = []" using stop_queue [OF q2] by (simp add: w4_def)
  have r4: "renderable (ae w4)"
    using r stop_props(4) [of w2] by (simp add: w4_def w2_def reset_def renderable_def)
  have i4: "capturing ?N 0 w4"
    using r4 stop_props(1,3) [of w2]
    by (simp add: capturing_def w4_def w2_def reset_def)
  have t4: "time (ae w4) = 0" "speed (ae w4) = speed (ae w)" "onProgress (ge w4) = onProgress (ge w)"
    using stop_props(1,5) [of w2] by (simp_all add: w4_def w2_def reset_def)
  have c0: "captureInterval ?cl \<noteq> 0" using c by simp
  have more: "int 0 < ?N" using N by simp
  from capture_call [OF i4 q4 more c0] div_step [of 0 ?c] c
  show ?thesis unfolding se using t4 by auto
qed

text \<open>
  Cancellation: the next call of the loop sees \<^verbatim>\<open>isExporting\<close> false, skips the
  encoder and restores the running state.
\<close>

lemma runCallbacks_single: "runCallbacks [(h, cb)] w = runCallback cb w"
  by (cases "runCallback cb w") simp_all

lemma capture_cancel:
  assumes inv: "capturing N k w" and q: "rafQueue w = [(h, CaptureLoop cl)]"
  shows "\<exists>w'. run [Cancel, AnimationFrame] w = Inr w'
     \<and> isRunning (ae w') = wasRunning cl
     \<and> time (ae w') = (if wasRunning cl then 0.016 * (speed (ae w) / 5) else time (ae w))
     \<and> gif (ge w') = None \<and> \<not> isExporting (ge w')
     \<and> rafQueue w' = (if wasRunning cl then [(lastHandle w + 1, Animate)] else [])"
proof -
  from inv obtain enc where e: "gif (ge w) = Some enc"
    and a: "renderable (ae w)" "\<not> isRunning (ae w)"
    unfolding capturing_def by blast
  define w1 where "w1 = w\<lparr>ge := (ge w)\<lparr>isExporting := False, gif := None\<rparr>,
                         trace := trace w @ [GifAbort], rafQueue := []\<rparr>"
  have c: "step Cancel w = Inr (w1\<lparr>rafQueue := rafQueue w\<rparr>)"
    using e by (simp add: step_def cancel_def Let_def w1_def)
  have l: "captureLoop cl w1 = (if wasRunning cl then start w1 else Inr w1)"
    by (simp add: captureLoop_def w1_def)
  have e1: "(w1\<lparr>rafQueue := rafQueue w\<rparr>)\<lparr>rafQueue := []\<rparr> = w1" by (simp add: w1_def)
  have e2: "rafQueue (w1\<lparr>rafQueue := rafQueue w\<rparr>) = [(h, CaptureLoop cl)]" using q by simp
  have "step AnimationFrame (w1\<lparr>rafQueue := rafQueue w\<rparr>) = captureLoop cl w1"
    by (simp only: step_def event.case e2 e1 runCallbacks_single runCallback_def callback.case)
  then have s: "step AnimationFrame (w1\<lparr>rafQueue := rafQueue w\<rparr>)
             = (if wasRunning cl then start w1 else Inr w1)"
    using l by simp
  show ?thesis
  proof (cases "wasRunning cl")
    case False
    then show ?thesis using c s a by (simp add: w1_def)
  next
    case True
    have "renderable (ae w1)" "\<not> isRunning (ae w1)" using a by (simp_all add: w1_def)
    from start_ok [OF this] obtain w' where "start w1 = Inr w'" "isRunning (ae w')"
      "time (ae w') = 0.016 * (speed (ae w1) / 5)" "ge w' = ge w1"
      "rafQueue w' = rafQueue w1 @ [(lastHandle w1 + 1, Animate)]"
      by blast
    then show ?thesis using c s True by (simp add: w1_def)
  qed
qed

lemma run_append:
  "run (xs @ ys) w = (case run xs w of Inl e \<Rightarrow> Inl e | Inr w1 \<Rightarrow> run ys w1)"
  by (induction xs arbitrary: w) (auto split: sum.splits)


text \<open>An export followed by \<open>j\<close> animation frames, while the capture lasts.\<close>

lemma export_frames:
  assumes gd: "GIF_defined w" and r: "renderable (ae w)"
    and q: "\<forall>e \<in> set (rafQueue w). animationId (ae w) = Some (fst e) \<and> fst e \<noteq> 0"
    and N: "0 < optOrElse (opt_frames options) 30"
    and c: "0 < optOrElse (opt_captureInterval options) 2"
    and j: "1 + int j \<le> optOrElse (opt_frames options) 30
                          * optOrElse (opt_captureInterval options) 2"
  shows "\<exists>w' h. exportAndRun options (replicate j AnimationFrame) w = Inr w'
     \<and> capturing (optOrElse (opt_frames options) 30)
          (nat ((1 + int j) div optOrElse (opt_captureInterval options) 2)) w'
     \<and> rafQueue w' = [(h, CaptureLoop \<lparr>wasRunning = isRunning (ae w),
                         captureInterval = optOrElse (opt_captureInterval options) 2,
                         frameCounter = 1 + int j\<rparr>)]
     \<and> time (ae w') = (1 + real j) * (0.016 * (speed (ae w) / 5))
     \<and> speed (ae w') = speed (ae w)
     \<and> onProgress (ge w') = onProgress (ge w)"
proof -
  let ?N = "optOrElse (opt_frames options) 30"
  let ?c = "optOrElse (opt_captureInterval options) 2"
  from start_export [OF gd r q N c] obtain w1 h1
    where s: "startExport options w = Inr w1"
      and i1: "capturing ?N (nat (1 div ?c)) w1"
      and q1: "rafQueue w1 = [(h1, CaptureLoop \<lparr>wasRunning = isRunning (ae w),
                         captureInterval = ?c, frameCounter = 1\<rparr>)]"
      and t1: "time (ae w1) = 0.016 * (speed (ae w) / 5)"
      and s1: "speed (ae w1) = speed (ae w)"
      and p1: "onProgress (ge w1) = onProgress (ge w)"
    by blast
  have "(0::int) \<le> 1" by simp
  from capture_run [OF c i1 q1 this j] obtain w' h'
    where r': "run (replicate j AnimationFrame) w1 = Inr w'"
      and i': "capturing ?N (nat ((1 + int j) div ?c)) w'"
      and q': "rafQueue w' = [(h', CaptureLoop \<lparr>wasRunning = isRunning (ae w),
                         captureInterval = ?c, frameCounter = 1 + int j\<rparr>)]"
      and t': "time (ae w') = time (ae w1) + real j * (0.016 * (speed (ae w1) / 5))"
      and s': "speed (ae w') = speed (ae w1)"
      and p': "onProgress (ge w') = onProgress (ge w1)"
    by blast
  have "exportAndRun options (replicate j AnimationFrame) w = Inr w'"
    using s r' by (simp add: exportAndRun_def)
  moreover have "time (ae w') = (1 + real j) * (0.016 * (speed (ae w) / 5))"
    using t' t1 s1 by (simp add: algebra_simps)
  ultimately show ?thesis using i' q' s' s1 p' p1 by auto
qed

lemma exportAndRun_append:
  "exportAndRun options (xs @ ys) w =
     (case exportAndRun options xs w of Inl e \<Rightarrow> Inl e | Inr w1 \<Rightarrow> run ys w1)"
  by (simp add: exportAndRun_def run_append split: sum.splits)

lemma export_cancel:
  assumes gd: "GIF_defined w" and r: "renderable (ae w)"
    and q: "\<forall>e \<in> set (rafQueue w). animationId (ae w) = Some (fst e) \<and> fst e \<noteq> 0"
    and N: "0 < optOrElse (opt_frames options) 30"
    and c: "0 < optOrElse (opt_captureInterval options) 2"
    and j: "1 + int j \<le> optOrElse (opt_frames options) 30
                          * optOrElse (opt_captureInterval options) 2"
  shows "\<exists>w'. exportAndRun options (replicate j AnimationFrame @ [Cancel, AnimationFrame]) w
               = Inr w'
     \<and> isRunning (ae w') = isRunning (ae w)
     \<and> time (ae w') = (if isRunning (ae w) then 0.016 * (speed (ae w) / 5)
                        else (1 + real j) * (0.016 * (speed (ae w) / 5)))
     \<and> gif (ge w') = None \<and> \<not> isExporting (ge w')
     \<and> (\<forall>e \<in> set (rafQueue w'). snd e = Animate)"
proof -
  from export_frames [OF gd r q N c j] obtain w1 h
    where e: "exportAndRun options (replicate j AnimationFrame) w = Inr w1"
      and i: "capturing (optOrElse (opt_frames options) 30)
                (nat ((1 + int j) div optOrElse (opt_captureInterval options) 2)) w1"
      and q1: "rafQueue w1 = [(h, CaptureLoop \<lparr>wasRunning = isRunning (ae w),
                         captureInterval = optOrElse (opt_captureInterval options) 2,
                         frameCounter = 1 + int j\<rparr>)]"
      and t: "time (ae w1) = (1 + real j) * (0.016 * (speed (ae w) / 5))"
      and s: "speed (ae w1) = speed (ae w)"
    by blast
  from capture_cancel [OF i q1] obtain w'
    where "run [Cancel, AnimationFrame] w1 = Inr w'"
      and "isRunning (ae w') = isRunning (ae w)"
      and "time (ae w') = (if isRunning (ae w) then 0.016 * (speed (ae w1) / 5) else time (ae w1))"
      and "gif (ge w') = None" "\<not> isExporting (ge w')"
      and "rafQueue w' = (if isRunning (ae w) then [(lastHandle w1 + 1, Animate)] else [])"
    by auto
  then show ?thesis using e t s by (auto simp: exportAndRun_append)
qed

text \<open>
  C2. An export with \<open>frames = 30\<close> and \<open>captureInterval = 2\<close>, started on an initialised
  engine with gif.js loaded and left to run for 60 animation frames without cancellation,
  succeeds; the encoder then holds exactly 30 frames, no capture callback is waiting,
  \<^verbatim>\<open>gif.render()\<close> has been called, and with a progress callback set the last progress
  of the capture is 50 and is followed at once by the progress 50 of the encoding and
  the call of \<^verbatim>\<open>gif.render()\<close>. Before that, after \<open>j + 1\<close> rendered ticks (the call in
  \<^verbatim>\<open>startExport\<close> and \<open>j < 60\<close> animation frames) the encoder holds \<open>(j + 1) div 2\<close>
  frames: one frame every second tick.
\<close>

theorem export_thirty_frames:
  assumes "GIF_defined w" and "renderable (ae w)"
    and "\<forall>e \<in> set (rafQueue w). animationId (ae w) = Some (fst e) \<and> fst e \<noteq> 0"
    and "opt_frames options = Some 30" and "opt_captureInterval options = Some 2"
  shows "(\<exists>w' post. exportAndRun options (replicate 60 AnimationFrame) w = Inr w'
           \<and> (\<exists>enc. gif (ge w') = Some enc \<and> length (frames enc) = 30)
           \<and> (\<forall>e \<in> set (rafQueue w'). snd e = Animate)
           \<and> (\<exists>pre. trace w' = pre @ [GifRender] @ post)
           \<and> (onProgress (ge w) \<longrightarrow>
                (\<exists>pre. trace w' = pre @ [Progress 50 (Capturing 30 30), Progress 50 Encoding,
                                         GifRender] @ post)))
       \<and> (\<forall>j<60. \<exists>wj enc. exportAndRun options (replicate j AnimationFrame) w = Inr wj
              \<and> gif (ge wj) = Some enc \<and> length (frames enc) = (j + 1) div 2
              \<and> framesCaptured (ge wj) = int ((j + 1) div 2))"
proof -
  have N: "optOrElse (opt_frames options) 30 = 30"
    and c: "optOrElse (opt_captureInterval options) 2 = 2"
    using assms(4,5) by (simp_all add: optOrElse_def orElse_def)
  have N0: "0 < optOrElse (opt_frames options) 30"
    and c0: "0 < optOrElse (opt_captureInterval options) 2"
    unfolding N c by simp_all
  note ef = export_frames [OF assms(1-3) N0 c0, unfolded N c]
  have ticks: "\<exists>wj enc. exportAndRun options (replicate j AnimationFrame) w = Inr wj
              \<and> gif (ge wj) = Some enc \<and> length (frames enc) = (j + 1) div 2
              \<and> framesCaptured (ge wj) = int ((j + 1) div 2)" if "j < 60" for j
  proof -
    have "1 + int j \<le> 30 * 2" using that by simp
    from ef [OF this] obtain wj where "exportAndRun options (replicate j AnimationFrame) w = Inr wj"
      and "capturing 30 (nat ((1 + int j) div 2)) wj" by blast
    moreover have "nat ((1 + int j) div 2) = (j + 1) div 2" by linarith
    ultimately show ?thesis by (auto simp: capturing_def)
  qed
  have "1 + int 59 \<le> 30 * 2" by simp
  from ef [OF this] obtain w1 h
    where e: "exportAndRun options (replicate 59 AnimationFrame) w = Inr w1"
      and i: "capturing 30 30 w1"
      and q1: "rafQueue w1 = [(h, CaptureLoop \<lparr>wasRunning = isRunning (ae w),
                         captureInterval = 2, frameCounter = 1 + int 59\<rparr>)]"
      and p: "onProgress (ge w1) = onProgress (ge w)"
    by auto
  from i obtain enc where enc: "gif (ge w1) = Some enc" "length (frames enc) = 30"
    by (auto simp: capturing_def)
  have full: "int 30 = (30::int)" and pos: "0 < (30::int)" by simp_all
  from capture_done [OF i q1 full pos] obtain w' post
    where s: "step AnimationFrame w1 = Inr w'"
      and g: "gif (ge w') = gif (ge w1)"
      and qq: "rafQueue w' = (if wasRunning \<lparr>wasRunning = isRunning (ae w),
                         captureInterval = 2, frameCounter = 1 + int 59\<rparr>
                              then [(lastHandle w1 + 1, Animate)] else [])"
      and t: "trace w' = trace w1 @ (if onProgress (ge w1) then [Progress 50 Encoding] else [])
                     @ [GifRender] @ post"
      and tp: "onProgress (ge w1) \<longrightarrow>
          (\<exists>pre. trace w' = pre @ [Progress 50 (Capturing 30 30), Progress 50 Encoding, GifRender]
                            @ post)"
    by blast
  have "replicate (Suc 59) AnimationFrame = replicate 59 AnimationFrame @ [AnimationFrame]"
    by (simp only: replicate_Suc replicate_append_same)
  moreover have "(60::nat) = Suc 59" by simp
  ultimately have "replicate 60 AnimationFrame = replicate 59 AnimationFrame @ [AnimationFrame]"
    by metis
  then have "exportAndRun options (replicate 60 AnimationFrame) w = Inr w'"
    using e s by (simp add: exportAndRun_append)
  then have "\<exists>w' post. exportAndRun options (replicate 60 AnimationFrame) w = Inr w'
           \<and> (\<exists>enc. gif (ge w') = Some enc \<and> length (frames enc) = 30)
           \<and> (\<forall>e \<in> set (rafQueue w'). snd e = Animate)
           \<and> (\<exists>pre. trace w' = pre @ [GifRender] @ post)
           \<and> (onProgress (ge w) \<longrightarrow>
                (\<exists>pre. trace w' = pre @ [Progress 50 (Capturing 30 30), Progress 50 Encoding,
                                         GifRender] @ post))"
    using g enc qq t tp p e by (intro exI [of _ w'] exI [of _ post]) auto
  then show ?thesis using ticks by blast
qed


theorem export_thirty_frames_witness:
  "GIF_defined runningWorld \<and> renderable (ae runningWorld)
   \<and> opt_frames appOptions = Some 30 \<and> opt_captureInterval appOptions = Some 2
   \<and> onProgress (ge runningWorld)
   \<and> (\<exists>w' pre post. exportAndRun appOptions (replicate 60 AnimationFrame) runningWorld = Inr w'
         \<and> (\<exists>enc. gif (ge w') = Some enc \<and> length (frames enc) = 30)
         \<and> trace w' = pre @ [Progress 50 (Capturing 30 30), Progress 50 Encoding, GifRender]
                          @ post)
   \<and> (\<exists>w3. exportAndRun appOptions (replicate 3 AnimationFrame) runningWorld = Inr w3
         \<and> framesCaptured (ge w3) = 2)"
proof -
  have h: "GIF_defined runningWorld" "renderable (ae runningWorld)"
    "\<forall>e \<in> set (rafQueue runningWorld).
        animationId (ae runningWorld) = Some (fst e) \<and> fst e \<noteq> 0"
    "opt_frames appOptions = Some 30" "opt_captureInterval appOptions = Some 2"
    by (simp_all add: runningWorld_def appOptions_def renderable_def)
  have p: "onProgress (ge runningWorld)" by (simp add: runningWorld_def)
  from export_thirty_frames [OF h] p have
    "(\<exists>w' pre post. exportAndRun appOptions (replicate 60 AnimationFrame) runningWorld = Inr w'
         \<and> (\<exists>enc. gif (ge w') = Some enc \<and> length (frames enc) = 30)
         \<and> trace w' = pre @ [Progress 50 (Capturing 30 30), Progress 50 Encoding, GifRender]
                          @ post)"
    and "\<forall>j<60. \<exists>wj enc. exportAndRun appOptions (replicate j AnimationFrame) runningWorld = Inr wj
              \<and> gif (ge wj) = Some enc \<and> length (frames enc) = (j + 1) div 2
              \<and> framesCaptured (ge wj) = int ((j + 1) div 2)"
    by blast+
  moreover from this(2) have
    "\<exists>w3. exportAndRun appOptions (replicate 3 AnimationFrame) runningWorld = Inr w3
         \<and> framesCaptured (ge w3) = 2"
    by (auto dest!: spec [of _ 3])
  ultimately show ?thesis using h p by blast
qed

text \<open>
  C4, as the code has it. An engine running with its clock at 1.6 is exported, and the
  export is cancelled after one animation frame. When the loop has halted the engine runs
  again, but its clock stands at 0.016: \<^verbatim>\<open>start()\<close> set it to 0 and the first frame
  advanced it by one step. The earlier value is kept nowhere.
\<close>

theorem cancel_clock_counterexample:
  "engineStatus (Inr runningWorld) = Inr (True, 8 / 5)
   \<and> engineStatus (exportAndRun appOptions [AnimationFrame, Cancel, AnimationFrame] runningWorld)
       = Inr (True, 2 / 125)"
proof -
  have h: "GIF_defined runningWorld" "renderable (ae runningWorld)"
    "\<forall>e \<in> set (rafQueue runningWorld).
        animationId (ae runningWorld) = Some (fst e) \<and> fst e \<noteq> 0"
    "0 < optOrElse (opt_frames appOptions) 30"
    "0 < optOrElse (opt_captureInterval appOptions) 2"
    "1 + int 1 \<le> optOrElse (opt_frames appOptions) 30
                   * optOrElse (opt_captureInterval appOptions) 2"
    by (simp_all add: runningWorld_def appOptions_def renderable_def optOrElse_def orElse_def)
  from export_cancel [OF h] obtain w'
    where "exportAndRun appOptions (replicate 1 AnimationFrame @ [Cancel, AnimationFrame])
             runningWorld = Inr w'"
      and "isRunning (ae w') = isRunning (ae runningWorld)"
      and "time (ae w') = (if isRunning (ae runningWorld)
                           then 0.016 * (speed (ae runningWorld) / 5)
                           else (1 + real 1) * (0.016 * (speed (ae runningWorld) / 5)))"
    by blast
  then show ?thesis by (simp add: engineStatus_def runningWorld_def)
qed

text \<open>
  C4, amended. If an export is cancelled while its capture loop is scheduled, the next
  animation frame halts the loop (no capture callback is left waiting), and the running
  flag of the engine equals its value from before the export started. The clock is not
  set to its earlier value: if the engine was running, it has restarted from 0 and stands
  one step later, at \<open>0.016 * speed / 5\<close>; if it was stopped, it keeps the time the capture
  accumulated since its reset to 0, one step for each rendered tick.
\<close>

theorem cancel_restores_running:
  assumes "GIF_defined w" and "renderable (ae w)"
    and "\<forall>e \<in> set (rafQueue w). animationId (ae w) = Some (fst e) \<and> fst e \<noteq> 0"
    and "0 < optOrElse (opt_frames options) 30"
    and "0 < optOrElse (opt_captureInterval options) 2"
    and "1 + int j \<le> optOrElse (opt_frames options) 30
                        * optOrElse (opt_captureInterval options) 2"
  shows "\<exists>w'. exportAndRun options (replicate j AnimationFrame @ [Cancel, AnimationFrame]) w
               = Inr w'
     \<and> (\<forall>e \<in> set (rafQueue w'). snd e = Animate)
     \<and> isRunning (ae w') = isRunning (ae w)
     \<and> time (ae w') = (if isRunning (ae w) then 0.016 * (speed (ae w) / 5)
                        else (1 + real j) * (0.016 * (speed (ae w) / 5)))"
  using export_cancel [OF assms] by blast

theorem cancel_restores_running_witness:
  "GIF_defined runningWorld \<and> renderable (ae runningWorld)
   \<and> 0 < optOrElse (opt_frames appOptions) 30
   \<and> 0 < optOrElse (opt_captureInterval appOptions) 2
   \<and> (\<exists>w'. exportAndRun appOptions (replicate 5 AnimationFrame @ [Cancel, AnimationFrame])
               runningWorld = Inr w'
         \<and> isRunning (ae w') \<and> time (ae w') = 2 / 125)"
proof -
  have h: "GIF_defined runningWorld" "renderable (ae runningWorld)"
    "\<forall>e \<in> set (rafQueue runningWorld).
        animationId (ae runningWorld) = Some (fst e) \<and> fst e \<noteq> 0"
    "0 < optOrElse (opt_frames appOptions) 30"
    "0 < optOrElse (opt_captureInterval appOptions) 2"
    "1 + int 5 \<le> optOrElse (opt_frames appOptions) 30
                   * optOrElse (opt_captureInterval appOptions) 2"
    by (simp_all add: runningWorld_def appOptions_def renderable_def optOrElse_def orElse_def)
  from cancel_restores_running [OF h] show ?thesis
    using h(1,2,4,5) by (auto simp: runningWorld_def)
qed

end
